theory Spec2Isabelle
  imports Main
begin

section \<open>Python values used by app.py\<close>

subsection \<open>Strings\<close>

text \<open>
  A Python \<open>str\<close> is a sequence of Unicode code points, and the seed data and the user's
  answers are Cyrillic, so a string is a list of code points (natural numbers), not a list
  of 8-bit characters. \<open>ascii\<close> embeds a literal of ASCII characters.
\<close>

type_synonym str = "nat list"

definition ascii :: "string \<Rightarrow> str" where
  "ascii cs = map of_char cs"

text \<open>
  \<open>str.strip()\<close> removes leading and trailing white space; the code points below are the
  ones for which \<open>str.isspace\<close> holds.
\<close>

definition isspace :: "nat \<Rightarrow> bool" where
  "isspace c =
     ((0x9 \<le> c \<and> c \<le> 0xD) \<or> (0x1C \<le> c \<and> c \<le> 0x20) \<or> c = 0x85 \<or> c = 0xA0 \<or>
      c = 0x1680 \<or> (0x2000 \<le> c \<and> c \<le> 0x200A) \<or> c = 0x2028 \<or> c = 0x2029 \<or>
      c = 0x202F \<or> c = 0x205F \<or> c = 0x3000)"

definition strip :: "str \<Rightarrow> str" where
  "strip s = rev (dropWhile isspace (rev (dropWhile isspace s)))"

text \<open>
  \<open>str.lower()\<close> is the Unicode case mapping of the Python runtime (a table of some 1400
  code points, with context rules). It is not part of this repository, so the handlers
  that call it, \<open>check_answer\<close> and \<open>add_word\<close>, take it as a parameter \<open>lower\<close>, and
  every theorem about them holds for every such function.
\<close>

subsection \<open>Dictionaries\<close>

text \<open>
  A \<open>dict\<close> with string keys keeps its items in insertion order, and the handlers read that
  order (\<open>list(data.keys())\<close>, \<open>list(data[category].items())\<close>): a dictionary is the list of
  its items, with distinct keys. \<open>dict_set\<close> is \<open>d[k] = v\<close>: an existing key keeps its
  place, a new key goes to the end. \<open>dict_del\<close> is \<open>del d[k]\<close>, which the source only
  reaches after checking \<open>k in d\<close>. \<open>dict_get\<close> is the lookup, \<open>None\<close> for a missing key.
\<close>

type_synonym 'v dict = "(str \<times> 'v) list"

primrec dict_set :: "str \<Rightarrow> 'v \<Rightarrow> 'v dict \<Rightarrow> 'v dict" where
  "dict_set k v [] = [(k, v)]"
| "dict_set k v (p # ps) = (if fst p = k then (k, v) # ps else p # dict_set k v ps)"

primrec dict_del :: "str \<Rightarrow> 'v dict \<Rightarrow> 'v dict" where
  "dict_del k [] = []"
| "dict_del k (p # ps) = (if fst p = k then dict_del k ps else p # dict_del k ps)"

primrec dict_get :: "'v dict \<Rightarrow> str \<Rightarrow> 'v option" where
  "dict_get [] k = None"
| "dict_get (p # ps) k = (if fst p = k then Some (snd p) else dict_get ps k)"

definition keys :: "'v dict \<Rightarrow> str list" where
  "keys d = map fst d"

text \<open>\<open>dict(pairs)\<close>: the items are inserted one after the other, so a repeated key keeps
  its first place and its last value.\<close>

definition dict_of_pairs :: "(str \<times> 'v) list \<Rightarrow> 'v dict" where
  "dict_of_pairs ps = foldl (\<lambda>d p. dict_set (fst p) (snd p) d) [] ps"

text \<open>\<open>session.get(key, default)\<close> and \<open>request.form.get(key, default)\<close>.\<close>

definition get_or :: "'a option \<Rightarrow> 'a \<Rightarrow> 'a" where
  "get_or x dflt = (case x of None \<Rightarrow> dflt | Some v \<Rightarrow> v)"

subsection \<open>Errors and list indexing\<close>

text \<open>The exceptions that the modelled code can raise.\<close>

datatype error = IndexError | UnicodeEncodeError | ZeroDivisionError | OverflowError

text \<open>\<open>xs[i]\<close>: a negative index counts from the end, an index out of range raises.\<close>

definition getitem :: "'a list \<Rightarrow> int \<Rightarrow> error + 'a" where
  "getitem xs i =
     (if 0 \<le> i \<and> i < int (length xs) then Inr (xs ! nat i)
      else if - int (length xs) \<le> i \<and> i < 0 then Inr (xs ! nat (int (length xs) + i))
      else Inl IndexError)"


section \<open>JSON text\<close>

text \<open>
  \<open>save_data\<close> writes the dataset with \<open>json.dump(data, f, ensure_ascii=False, indent=2)\<close>
  and \<open>load_data\<close> reads it with \<open>json.load(f)\<close>. Both are the Python library's; they are
  modelled here for the values the application handles, dictionaries of dictionaries of
  strings.
\<close>

subsection \<open>Writing: \<open>json.dump\<close>\<close>

text \<open>
  With \<open>ensure_ascii=False\<close> a string is written between double quotes with the quote, the
  backslash and the control characters below U+0020 escaped, and every other code point
  as it is.
\<close>

definition hex_digit :: "nat \<Rightarrow> nat" where
  "hex_digit n = (if n < 10 then 0x30 + n else 0x61 + (n - 10))"

definition escape_char :: "nat \<Rightarrow> str" where
  "escape_char c =
     (if c = 0x22 then [0x5C, 0x22]
      else if c = 0x5C then [0x5C, 0x5C]
      else if c = 0x0A then [0x5C, 0x6E]
      else if c = 0x0D then [0x5C, 0x72]
      else if c = 0x09 then [0x5C, 0x74]
      else if c = 0x08 then [0x5C, 0x62]
      else if c = 0x0C then [0x5C, 0x66]
      else if c < 0x20 then [0x5C, 0x75, 0x30, 0x30, hex_digit (c div 16), hex_digit (c mod 16)]
      else [c])"

definition encode_basestring :: "str \<Rightarrow> str" where
  "encode_basestring s = 0x22 # concat (map escape_char s) @ [0x22]"

text \<open>
  The encoder yields the text in chunks: with \<open>indent=2\<close> a non-empty dictionary entered at
  indentation level \<open>n\<close> is \<open>{\<close>, a newline with \<open>2 * (n + 1)\<close> spaces, its items, a newline
  with \<open>2 * n\<close> spaces and \<open>}\<close>; an item is the key, \<open>: \<close> and the value, and every item but
  the first is preceded by a comma and the newline with its spaces. An empty dictionary is
  the chunk \<open>{}\<close>. Each string is one chunk.
\<close>

definition newline_indent :: "nat \<Rightarrow> str" where
  "newline_indent level = 0x0A # replicate (2 * level) 0x20"

definition item_separator :: "nat \<Rightarrow> str" where
  "item_separator level = 0x2C # newline_indent level"

definition key_separator :: str where
  "key_separator = [0x3A, 0x20]"

primrec words_items :: "nat \<Rightarrow> bool \<Rightarrow> (str \<times> str) list \<Rightarrow> str list" where
  "words_items level first [] = []"
| "words_items level first (kv # kvs) =
     (if first then [] else [item_separator level]) @
     [encode_basestring (fst kv), key_separator, encode_basestring (snd kv)] @
     words_items level False kvs"

definition iterencode_words :: "nat \<Rightarrow> (str \<times> str) list \<Rightarrow> str list" where
  "iterencode_words level ws =
     (if ws = [] then [[0x7B, 0x7D]]
      else [[0x7B], newline_indent (level + 1)] @ words_items (level + 1) True ws @
           [newline_indent level, [0x7D]])"

primrec dataset_items :: "nat \<Rightarrow> bool \<Rightarrow> (str \<times> (str \<times> str) list) list \<Rightarrow> str list" where
  "dataset_items level first [] = []"
| "dataset_items level first (kv # kvs) =
     (if first then [] else [item_separator level]) @
     [encode_basestring (fst kv), key_separator] @ iterencode_words level (snd kv) @
     dataset_items level False kvs"

definition iterencode :: "(str \<times> (str \<times> str) list) list \<Rightarrow> str list" where
  "iterencode data =
     (if data = [] then [[0x7B, 0x7D]]
      else [[0x7B], newline_indent 1] @ dataset_items 1 True data @ [newline_indent 0, [0x7D]])"

text \<open>
  \<open>json.dump\<close> writes the chunks one after the other to the file, which is open with
  \<open>encoding='utf-8'\<close>: a chunk that holds a surrogate code point (U+D800 to U+DFFF) cannot
  be encoded, the write raises \<open>UnicodeEncodeError\<close>, and the file keeps the chunks written
  before.
\<close>

definition surrogate :: "nat \<Rightarrow> bool" where
  "surrogate c = (0xD800 \<le> c \<and> c \<le> 0xDFFF)"

definition utf8_encodable :: "str \<Rightarrow> bool" where
  "utf8_encodable s = list_all (\<lambda>c. \<not> surrogate c) s"

primrec write_chunks :: "str list \<Rightarrow> str \<Rightarrow> error option \<times> str" where
  "write_chunks [] buf = (None, buf)"
| "write_chunks (c # cs) buf =
     (if utf8_encodable c then write_chunks cs (buf @ c) else (Some UnicodeEncodeError, buf))"

subsection \<open>Reading: \<open>json.load\<close>\<close>

text \<open>
  The decoder reads braces, colons, commas and strings, separated by any number of
  spaces, tabs, newlines and carriage returns. In a string a backslash starts an escape:
  one of \<open>" \ / b f n r t\<close>, or \<open>u\<close> and four hexadecimal digits; a high surrogate written
  so that is followed by a low surrogate written so is joined with it into one code
  point. A control character inside a string is an error, as is a string without its
  closing quote. \<open>lex None\<close> reads the text outside a string, \<open>lex (Some acc)\<close> inside one,
  \<open>acc\<close> being the code points read so far, last first.
\<close>

datatype token = LBrace | RBrace | Colon | Comma | Str str

definition is_ws :: "nat \<Rightarrow> bool" where
  "is_ws c = (c = 0x20 \<or> c = 0x09 \<or> c = 0x0A \<or> c = 0x0D)"

definition hex_value :: "nat \<Rightarrow> nat option" where
  "hex_value c =
     (if 0x30 \<le> c \<and> c \<le> 0x39 then Some (c - 0x30)
      else if 0x61 \<le> c \<and> c \<le> 0x66 then Some (c - 0x61 + 10)
      else if 0x41 \<le> c \<and> c \<le> 0x46 then Some (c - 0x41 + 10)
      else None)"

definition hex4 :: "str \<Rightarrow> nat option" where
  "hex4 ds =
     (case map hex_value ds of
        [Some a, Some b, Some c, Some d] \<Rightarrow> Some (((a * 16 + b) * 16 + c) * 16 + d)
      | _ \<Rightarrow> None)"

definition unescape :: "nat \<Rightarrow> nat option" where
  "unescape e =
     (if e = 0x22 then Some 0x22
      else if e = 0x5C then Some 0x5C
      else if e = 0x2F then Some 0x2F
      else if e = 0x62 then Some 0x08
      else if e = 0x66 then Some 0x0C
      else if e = 0x6E then Some 0x0A
      else if e = 0x72 then Some 0x0D
      else if e = 0x74 then Some 0x09
      else None)"

fun lex :: "str option \<Rightarrow> str \<Rightarrow> token list option" where
  "lex None [] = Some []"
| "lex (Some acc) [] = None"
| "lex None (c # cs) =
     (if is_ws c then lex None cs
      else if c = 0x7B then map_option (Cons LBrace) (lex None cs)
      else if c = 0x7D then map_option (Cons RBrace) (lex None cs)
      else if c = 0x3A then map_option (Cons Colon) (lex None cs)
      else if c = 0x2C then map_option (Cons Comma) (lex None cs)
      else if c = 0x22 then lex (Some []) cs
      else None)"
| "lex (Some acc) (c # cs) =
     (if c = 0x22 then map_option (Cons (Str (rev acc))) (lex None cs)
      else if c = 0x5C then
        (case cs of
           [] \<Rightarrow> None
         | e # es \<Rightarrow>
             if e = 0x75 then
               (case hex4 (take 4 es) of
                  None \<Rightarrow> None
                | Some u \<Rightarrow>
                    if 0xD800 \<le> u \<and> u \<le> 0xDBFF \<and> take 2 (drop 4 es) = [0x5C, 0x75] then
                      (case hex4 (take 4 (drop 6 es)) of
                         None \<Rightarrow> None
                       | Some u2 \<Rightarrow>
                           if 0xDC00 \<le> u2 \<and> u2 \<le> 0xDFFF
                           then lex (Some ((0x10000 + (u - 0xD800) * 0x400 + (u2 - 0xDC00)) # acc))
                                  (drop 10 es)
                           else lex (Some (u # acc)) (drop 4 es))
                    else lex (Some (u # acc)) (drop 4 es))
             else
               (case unescape e of
                  None \<Rightarrow> None
                | Some ch \<Rightarrow> lex (Some (ch # acc)) es))
      else if c < 0x20 then None
      else lex (Some (c # acc)) cs)"

text \<open>
  An object of objects of strings, as its list of members in the order of the text, after
  the opening brace: \<open>object_members\<close> reads a category name, the colon and the opening
  brace of the inner object, \<open>inner_members\<close> the terms and translations, \<open>after_inner\<close>
  what follows an inner object. Nothing may follow the closing brace of the outer object.
\<close>

fun object_members :: "token list \<Rightarrow> (str \<times> (str \<times> str) list) list option"
  and inner_members ::
    "token list \<Rightarrow> ((str \<times> str) list \<times> (str \<times> (str \<times> str) list) list) option"
  and after_inner :: "token list \<Rightarrow> (str \<times> (str \<times> str) list) list option"
where
  "object_members (Str k # Colon # LBrace # RBrace # ts) =
     map_option (Cons (k, [])) (after_inner ts)"
| "object_members (Str k # Colon # LBrace # ts) =
     (case inner_members ts of
        None \<Rightarrow> None
      | Some (ws, others) \<Rightarrow> Some ((k, ws) # others))"
| "object_members _ = None"
| "inner_members (Str t # Colon # Str v # Comma # ts) =
     (case inner_members ts of
        None \<Rightarrow> None
      | Some (ws, others) \<Rightarrow> Some ((t, v) # ws, others))"
| "inner_members (Str t # Colon # Str v # RBrace # ts) =
     (case after_inner ts of
        None \<Rightarrow> None
      | Some others \<Rightarrow> Some ([(t, v)], others))"
| "inner_members _ = None"
| "after_inner (Comma # ts) = object_members ts"
| "after_inner [RBrace] = Some []"
| "after_inner _ = None"


section \<open>The store: data/legal\_words.json\<close>

text \<open>
  The vocabulary is a dictionary from category names to dictionaries from terms to
  translations.

  The durable file is absent (\<open>None\<close>) or has a content, kept here as \<open>json.load\<close> reads
  it: either a text that \<open>json.load\<close> rejects (or a file that cannot be read), or a JSON
  document, an object of objects of strings, held as the members the text lists, in the
  text's order and with the repeated keys the text may have. \<open>read_text\<close> is the content of
  a file with a given text. A text that is JSON of another shape (an array, a number for
  a translation) gives \<open>load_data\<close> a value that is not a dataset; the typed dataset has no
  room for it and \<open>read_text\<close> counts it as rejected. Faults of the file system
  (\<open>os.makedirs\<close>, a disk that is full) are not modelled.
\<close>

type_synonym words = "str dict"
type_synonym dataset = "words dict"

datatype content = Unparseable | Document "(str \<times> (str \<times> str) list) list"

type_synonym store = "content option"

definition read_text :: "str \<Rightarrow> content" where
  "read_text text =
     (case lex None text of
        None \<Rightarrow> Unparseable
      | Some ts \<Rightarrow>
          (case ts of
             [LBrace, RBrace] \<Rightarrow> Document []
           | LBrace # ts' \<Rightarrow>
               (case object_members ts' of None \<Rightarrow> Unparseable | Some ms \<Rightarrow> Document ms)
           | _ \<Rightarrow> Unparseable))"

text \<open>\<open>json.load\<close> builds the dictionaries from the members.\<close>

definition json_load :: "content \<Rightarrow> dataset option" where
  "json_load f =
     (case f of
        Unparseable \<Rightarrow> None
      | Document ms \<Rightarrow> Some (dict_of_pairs (map (\<lambda>m. (fst m, dict_of_pairs (snd m))) ms)))"

text \<open>The seed of \<open>get_default_data\<close>: three categories (civil, criminal and international
  law, named in Russian) of four words each.\<close>

definition get_default_data :: dataset where
  "get_default_data =
    [([0x413, 0x440, 0x430, 0x436, 0x434, 0x430, 0x43D, 0x441, 0x43A, 0x43E, 0x435, 0x20,
       0x43F, 0x440, 0x430, 0x432, 0x43E],
      [(ascii ''contract'', [0x434, 0x43E, 0x433, 0x43E, 0x432, 0x43E, 0x440]),
       (ascii ''obligation'',
        [0x43E, 0x431, 0x44F, 0x437, 0x430, 0x442, 0x435, 0x43B, 0x44C, 0x441, 0x442, 0x432,
         0x43E]),
       (ascii ''property'',
        [0x441, 0x43E, 0x431, 0x441, 0x442, 0x432, 0x435, 0x43D, 0x43D, 0x43E, 0x441, 0x442,
         0x44C]),
       (ascii ''liability'',
        [0x43E, 0x442, 0x432, 0x435, 0x442, 0x441, 0x442, 0x432, 0x435, 0x43D, 0x43D, 0x43E,
         0x441, 0x442, 0x44C])]),
     ([0x423, 0x433, 0x43E, 0x43B, 0x43E, 0x432, 0x43D, 0x43E, 0x435, 0x20, 0x43F, 0x440,
       0x430, 0x432, 0x43E],
      [(ascii ''crime'',
        [0x43F, 0x440, 0x435, 0x441, 0x442, 0x443, 0x43F, 0x43B, 0x435, 0x43D, 0x438, 0x435]),
       (ascii ''penalty'', [0x43D, 0x430, 0x43A, 0x430, 0x437, 0x430, 0x43D, 0x438, 0x435]),
       (ascii ''evidence'',
        [0x434, 0x43E, 0x43A, 0x430, 0x437, 0x430, 0x442, 0x435, 0x43B, 0x44C, 0x441, 0x442,
         0x432, 0x43E]),
       (ascii ''suspect'',
        [0x43F, 0x43E, 0x434, 0x43E, 0x437, 0x440, 0x435, 0x432, 0x430, 0x435, 0x43C, 0x44B,
         0x439])]),
     ([0x41C, 0x435, 0x436, 0x434, 0x443, 0x43D, 0x430, 0x440, 0x43E, 0x434, 0x43D, 0x43E,
       0x435, 0x20, 0x43F, 0x440, 0x430, 0x432, 0x43E],
      [(ascii ''treaty'', [0x434, 0x43E, 0x433, 0x43E, 0x432, 0x43E, 0x440]),
       (ascii ''sovereignty'',
        [0x441, 0x443, 0x432, 0x435, 0x440, 0x435, 0x43D, 0x438, 0x442, 0x435, 0x442]),
       (ascii ''diplomacy'',
        [0x434, 0x438, 0x43F, 0x43B, 0x43E, 0x43C, 0x430, 0x442, 0x438, 0x44F]),
       (ascii ''sanction'', [0x441, 0x430, 0x43D, 0x43A, 0x446, 0x438, 0x44F])])]"

text \<open>\<open>save_data\<close> opens the file for writing, which empties it, and writes the chunks;
  it returns the exception, if any, and the store it leaves.\<close>

definition save_data :: "dataset \<Rightarrow> store \<Rightarrow> error option \<times> store" where
  "save_data data st =
     (case write_chunks (iterencode data) [] of (err, text) \<Rightarrow> (err, Some (read_text text)))"

text \<open>\<open>load_data\<close> returns the dataset and the store it leaves: the file exists and
  parses; the file exists and the \<open>try\<close> fails (the bare \<open>except\<close> returns the seed); the
  file is absent (the seed is saved and returned). The seed has no surrogate code point,
  so this \<open>save_data\<close> does not raise (\<open>save_default_data\<close> below).\<close>

definition load_data :: "store \<Rightarrow> dataset \<times> store" where
  "load_data st =
     (case st of
        Some f \<Rightarrow>
          (case json_load f of
             Some data \<Rightarrow> (data, st)
           | None \<Rightarrow> (get_default_data, st))
      | None \<Rightarrow> (let data = get_default_data in (data, snd (save_data data st))))"

section \<open>The quiz session\<close>

text \<open>Flask's \<open>session\<close> is a dictionary with up to four keys; each field is \<open>None\<close> while
  its key is absent, and the handlers read it with a default.\<close>

record session =
  test_words :: "(str \<times> str) list option"
  current_index :: "int option"
  score :: "int option"
  category :: "str option"

definition empty_session :: session where
  "empty_session = \<lparr>test_words = None, current_index = None, score = None, category = None\<rparr>"

datatype test_response = Redirect_testing | Render_test str nat int

text \<open>GET /test/<category>: the handler \<open>test\<close>.\<close>

definition test :: "store \<Rightarrow> session \<Rightarrow> str \<Rightarrow> test_response \<times> session \<times> store" where
  "test st s cat =
     (let (data, st') = load_data st in
      case dict_get data cat of
        None \<Rightarrow> (Redirect_testing, s, st')
      | Some ws \<Rightarrow>
          (let words = ws in
           if words = [] then (Redirect_testing, s, st')
           else (Render_test cat (length words) 1,
                 s\<lparr>test_words := Some words, current_index := Some 0, score := Some 0,
                   category := Some cat\<rparr>,
                 st')))"

text \<open>POST /check\_answer: the JSON body's \<open>answer\<close> is \<open>None\<close> when the key is missing.
  The response is \<open>{finished: true}\<close> or \<open>{correct, correct_answer, finished}\<close>. An exception
  leaves the session as it was. The first argument is \<open>str.lower\<close>.\<close>

datatype check_response = Finished | Checked bool str bool

definition check_answer ::
  "(str \<Rightarrow> str) \<Rightarrow> store \<Rightarrow> session \<Rightarrow> str option \<Rightarrow>
   (error + check_response \<times> session) \<times> store" where
  "check_answer lower st s answer =
     (let (data, st') = load_data st;
          user_answer = lower (strip (get_or answer []));
          words = get_or (test_words s) [];
          idx = get_or (current_index s) 0
      in if int (length words) \<le> idx then (Inr (Finished, s), st')
         else case getitem words idx of
                Inl e \<Rightarrow> (Inl e, st')
              | Inr (current_word, correct_translation) \<Rightarrow>
                  (let is_correct = (user_answer = lower correct_translation);
                       s1 = (if is_correct then s\<lparr>score := Some (get_or (score s) 0 + 1)\<rparr>
                             else s);
                       s2 = s1\<lparr>current_index := Some (idx + 1)\<rparr>
                   in (Inr (Checked is_correct correct_translation
                              (int (length words) \<le> get_or (current_index s2) 0),
                            s2),
                       st')))"

text \<open>
  GET /results. The template gets \<open>score\<close>, \<open>total\<close>, \<open>category\<close> and \<open>percentage\<close>, which
  is the integer \<open>0\<close> or the float \<open>round(score / total * 100, 1)\<close>. The three float
  operations are the runtime's (IEEE 754 doubles, correctly rounded decimal rounding) and
  are arguments of the model, in the order of the expression: \<open>truediv\<close> is the true
  division of two integers, which raises for a zero divisor and for a quotient beyond the
  range of a float; \<open>mul\<close> multiplies a float by an integer; \<open>round_ndigits\<close> rounds a float
  to a number of decimals. The handler does not assign to the session.
\<close>

datatype 'f number = Int_value int | Float_value 'f

datatype 'f results_response = Render_results int nat str "'f number"

definition results ::
  "(int \<Rightarrow> int \<Rightarrow> error + 'f) \<Rightarrow> ('f \<Rightarrow> int \<Rightarrow> 'f) \<Rightarrow> ('f \<Rightarrow> int \<Rightarrow> 'f) \<Rightarrow> session \<Rightarrow>
   (error + 'f results_response) \<times> session" where
  "results truediv mul round_ndigits s =
     (let sc = get_or (score s) 0;
          total = length (get_or (test_words s) []);
          cat = get_or (category s) []
      in if 0 < total then
           (case truediv sc (int total) of
              Inl e \<Rightarrow> (Inl e, s)
            | Inr q \<Rightarrow>
                (Inr (Render_results sc total cat
                        (Float_value (round_ndigits (mul q 100) 1))),
                 s))
         else (Inr (Render_results sc total cat (Int_value 0)), s))"


section \<open>Editing the vocabulary\<close>

text \<open>A handler that calls \<open>save_data\<close> and then returns its response: an exception of
  \<open>save_data\<close> is the handler's, and the file is left as the failed write left it.\<close>

definition after_save :: "error option \<times> store \<Rightarrow> 'a \<Rightarrow> (error + 'a) \<times> store" where
  "after_save saved response =
     (case saved of
        (None, st) \<Rightarrow> (Inr response, st)
      | (Some e, st) \<Rightarrow> (Inl e, st))"

text \<open>/add\_word: the form maps a field name to its value. The two error messages and the
  success message are rendered from the values kept here. The first argument is
  \<open>str.lower\<close>.\<close>

datatype http_method = GET | POST | DELETE

datatype validation_error = Fields_required | Category_required

datatype add_word_response =
    Render_form "str list"
  | Render_error "str list" validation_error
  | Render_success "str list" str str

definition add_word ::
  "(str \<Rightarrow> str) \<Rightarrow> store \<Rightarrow> http_method \<Rightarrow> (string \<Rightarrow> str option) \<Rightarrow>
   (error + add_word_response) \<times> store" where
  "add_word lower st method form =
     (let (data, st') = load_data st in
      if method = POST then
        (let english = lower (strip (get_or (form ''english'') []));
             russian = strip (get_or (form ''russian'') []);
             cat = strip (get_or (form ''category'') []);
             new_category = strip (get_or (form ''new_category'') [])
         in if english = [] \<or> russian = [] then
              (Inr (Render_error (keys data) Fields_required), st')
            else
              (let final_category = (if new_category \<noteq> [] then new_category else cat)
               in if final_category = [] then
                    (Inr (Render_error (keys data) Category_required), st')
                  else
                    (let data1 = (if dict_get data final_category = None
                                  then dict_set final_category [] data else data);
                         data2 = dict_set final_category
                                   (dict_set english russian
                                      (get_or (dict_get data1 final_category) []))
                                   data1
                     in after_save (save_data data2 st')
                          (Render_success (keys data2) english final_category))))
      else (Inr (Render_form (keys data)), st'))"

text \<open>/api/words. The POST body carries the strings \<open>english\<close>, \<open>russian\<close> and
  \<open>category\<close>, in this order in \<open>Api_post\<close>; in the DELETE body \<open>category\<close> and
  \<open>english\<close> (in this order in \<open>Api_delete\<close>) may be missing.\<close>

datatype api_request =
    Api_get
  | Api_post str str str
  | Api_delete "str option" "str option"

datatype api_response = Json_data dataset | Success

definition api_words :: "store \<Rightarrow> api_request \<Rightarrow> (error + api_response) \<times> store" where
  "api_words st req =
     (let (data, st') = load_data st in
      case req of
        Api_get \<Rightarrow> (Inr (Json_data data), st')
      | Api_post english russian cat \<Rightarrow>
          (let data1 = (if dict_get data cat = None then dict_set cat [] data else data);
               data2 = dict_set cat
                         (dict_set english russian (get_or (dict_get data1 cat) [])) data1
           in after_save (save_data data2 st') Success)
      | Api_delete cat_opt english_opt \<Rightarrow>
          (let data' =
             (if english_opt \<noteq> None \<and> english_opt \<noteq> Some [] then
                (case cat_opt of
                   None \<Rightarrow> data
                 | Some cat \<Rightarrow>
                     (case dict_get data cat of
                        None \<Rightarrow> data
                      | Some ws \<Rightarrow>
                          (if dict_get ws (get_or english_opt []) \<noteq> None then
                             (let data1 = dict_set cat (dict_del (get_or english_opt []) ws) data
                              in if get_or (dict_get data1 cat) [] = [] then dict_del cat data1
                                 else data1)
                           else data)))
              else
                (case cat_opt of
                   None \<Rightarrow> data
                 | Some cat \<Rightarrow> if dict_get data cat \<noteq> None then dict_del cat data else data))
           in after_save (save_data data' st') Success))"


section \<open>Notions used by the properties\<close>

text \<open>A dataset is well formed when it is a dictionary of dictionaries: no key occurs twice,
  neither among the categories nor among the terms of a category.\<close>

definition wf_dataset :: "dataset \<Rightarrow> bool" where
  "wf_dataset d = (distinct (keys d) \<and> list_all (\<lambda>p. distinct (keys (snd p))) d)"

definition no_empty_categories :: "dataset \<Rightarrow> bool" where
  "no_empty_categories d = list_all (\<lambda>p. snd p \<noteq> []) d"

text \<open>A dataset can be written to the UTF-8 file when none of its strings holds a
  surrogate code point.\<close>

definition encodable_dataset :: "dataset \<Rightarrow> bool" where
  "encodable_dataset d =
     list_all (\<lambda>c. utf8_encodable (fst c) \<and>
                    list_all (\<lambda>w. utf8_encodable (fst w) \<and> utf8_encodable (snd w)) (snd c)) d"

text \<open>The durable file holds a dataset when it exists and \<open>json.load\<close> reads that dataset
  from it.\<close>

definition holds :: "store \<Rightarrow> dataset \<Rightarrow> bool" where
  "holds st d = (case st of None \<Rightarrow> False | Some f \<Rightarrow> json_load f = Some d)"

text \<open>The translation stored for a term of a category, if any.\<close>

definition lookup :: "dataset \<Rightarrow> str \<Rightarrow> str \<Rightarrow> str option" where
  "lookup d c t = (case dict_get d c of None \<Rightarrow> None | Some ws \<Rightarrow> dict_get ws t)"

text \<open>The fields of the quiz session as the handlers read them: \<open>items\<close>, \<open>position\<close> and
  \<open>score\<close> of the specification.\<close>

definition session_items :: "session \<Rightarrow> (str \<times> str) list" where
  "session_items s = get_or (test_words s) []"

definition session_position :: "session \<Rightarrow> int" where
  "session_position s = get_or (current_index s) 0"

definition session_score :: "session \<Rightarrow> int" where
  "session_score s = get_or (score s) 0"

definition session_inv :: "session \<Rightarrow> bool" where
  "session_inv s =
     (0 \<le> session_position s \<and> session_position s \<le> int (length (session_items s)) \<and>
      0 \<le> session_score s \<and> session_score s \<le> session_position s)"

text \<open>The sessions a browser can hold: the empty one, and the ones the two quiz handlers
  leave, whatever the store is when the request arrives. A request that raises leaves the
  session as it was.\<close>

inductive reachable :: "(str \<Rightarrow> str) \<Rightarrow> session \<Rightarrow> bool" for lower :: "str \<Rightarrow> str" where
  reach_empty: "reachable lower empty_session"
| reach_test: "reachable lower s \<Longrightarrow> reachable lower (fst (snd (test st s cat)))"
| reach_check:
    "reachable lower s \<Longrightarrow> fst (check_answer lower st s answer) = Inr (r, s') \<Longrightarrow>
     reachable lower s'"

text \<open>A sequence of DELETE /api/words requests, each given by its \<open>category\<close> and its
  \<open>english\<close>; a request that raises leaves the file as its failed write left it.\<close>

definition delete_requests :: "store \<Rightarrow> (str option \<times> str option) list \<Rightarrow> store" where
  "delete_requests st reqs =
     foldl (\<lambda>st' r. snd (api_words st' (Api_delete (fst r) (snd r)))) st reqs"


text \<open>The dataset that a POST /api/words or an accepted POST /add\_word saves (the
  \<open>upsertWord\<close> of the specification), and the dataset that a DELETE /api/words saves:
  the expressions of the handlers, named so that the lemmas can speak of them.\<close>

definition upsert_word :: "dataset \<Rightarrow> str \<Rightarrow> str \<Rightarrow> str \<Rightarrow> dataset" where
  "upsert_word data cat term translation =
     (let data1 = (if dict_get data cat = None then dict_set cat [] data else data)
      in dict_set cat (dict_set term translation (get_or (dict_get data1 cat) [])) data1)"

definition remove_word :: "dataset \<Rightarrow> str \<Rightarrow> str \<Rightarrow> words \<Rightarrow> dataset" where
  "remove_word data cat e ws =
     (let data1 = dict_set cat (dict_del e ws) data
      in if get_or (dict_get data1 cat) [] = [] then dict_del cat data1 else data1)"

definition deleted_dataset :: "dataset \<Rightarrow> str option \<Rightarrow> str option \<Rightarrow> dataset" where
  "deleted_dataset data cat_opt english_opt =
     (if english_opt \<noteq> None \<and> english_opt \<noteq> Some [] then
        (case cat_opt of
           None \<Rightarrow> data
         | Some cat \<Rightarrow>
             (case dict_get data cat of
                None \<Rightarrow> data
              | Some ws \<Rightarrow>
                  (if dict_get ws (get_or english_opt []) \<noteq> None
                   then remove_word data cat (get_or english_opt []) ws
                   else data)))
      else
        (case cat_opt of
           None \<Rightarrow> data
         | Some cat \<Rightarrow> if dict_get data cat \<noteq> None then dict_del cat data else data))"


section \<open>Notions used by the proofs about the JSON text\<close>

text \<open>The tokens of the text that \<open>json.dump\<close> writes for the items of a dictionary of
  strings, for such a dictionary, and for the items of a dataset.\<close>

primrec words_tokens :: "bool \<Rightarrow> (str \<times> str) list \<Rightarrow> token list" where
  "words_tokens first [] = []"
| "words_tokens first (kv # kvs) =
     (if first then [] else [Comma]) @ [Str (fst kv), Colon, Str (snd kv)] @
     words_tokens False kvs"

definition object_tokens :: "(str \<times> str) list \<Rightarrow> token list" where
  "object_tokens ws = (if ws = [] then [LBrace, RBrace] else LBrace # words_tokens True ws @ [RBrace])"

primrec dataset_tokens :: "bool \<Rightarrow> (str \<times> (str \<times> str) list) list \<Rightarrow> token list" where
  "dataset_tokens first [] = []"
| "dataset_tokens first (kv # kvs) =
     (if first then [] else [Comma]) @ [Str (fst kv), Colon] @ object_tokens (snd kv) @
     dataset_tokens False kvs"

text \<open>
  The tokens of a chunk; a chunk is closed when reading it leaves the reader outside a
  string, whatever follows. A list of tokens opens when it ends with a brace that opens, a
  comma or a colon: a JSON text cannot end there. A list of chunks is guarded when every
  chunk that cannot be encoded comes after tokens that open.
\<close>

definition chunk_tokens :: "str \<Rightarrow> token list" where
  "chunk_tokens c = (case lex None c of None \<Rightarrow> [] | Some ts \<Rightarrow> ts)"

definition closed :: "str \<Rightarrow> bool" where
  "closed c =
     (\<forall>rest. lex None (c @ rest) =
        (case lex None rest of None \<Rightarrow> None | Some r \<Rightarrow> Some (chunk_tokens c @ r)))"

definition opens :: "token list \<Rightarrow> bool" where
  "opens ts = (ts \<noteq> [] \<and> (last ts = LBrace \<or> last ts = Comma \<or> last ts = Colon))"

primrec guarded :: "token list \<Rightarrow> str list \<Rightarrow> bool" where
  "guarded ctx [] = True"
| "guarded ctx (c # cs) = ((utf8_encodable c \<or> opens ctx) \<and> guarded (ctx @ chunk_tokens c) cs)"


section \<open>Concrete datasets, sessions and functions\<close>

definition law :: dataset where
  "law = [(ascii ''Law'', [(ascii ''contract'', ascii ''x''), (ascii ''tort'', ascii ''y'')])]"

text \<open>A dataset with a category of one word and a category of two.\<close>

definition statutes :: dataset where
  "statutes =
     [(ascii ''Law'', [(ascii ''tort'', ascii ''y'')]),
      (ascii ''Court'', [(ascii ''judge'', ascii ''a''), (ascii ''jury'', ascii ''b'')])]"

text \<open>A dataset with a term that is the lone surrogate U+D800, as a POST /api/words whose
  JSON body has \<open>"english": "\ud800"\<close> stores it.\<close>

definition surrogate_words :: dataset where
  "surrogate_words = [(ascii ''a'', [([0xD800], ascii ''x'')])]"

definition two_words :: session where
  "two_words =
     \<lparr>test_words = Some [(ascii ''crime'', ascii ''Delikt''), (ascii ''penalty'', ascii ''b'')],
      current_index = Some 0, score = Some 0, category = Some (ascii ''Law'')\<rparr>"

text \<open>The same quiz after a first, correct answer.\<close>

definition one_of_two :: session where
  "one_of_two =
     \<lparr>test_words = Some [(ascii ''crime'', ascii ''Delikt''), (ascii ''penalty'', ascii ''b'')],
      current_index = Some 1, score = Some 1, category = Some (ascii ''Law'')\<rparr>"

text \<open>The first category of the seed and the translation of ``tort'' (in Russian).\<close>

definition civil_law :: str where
  "civil_law = [0x413, 0x440, 0x430, 0x436, 0x434, 0x430, 0x43D, 0x441, 0x43A, 0x43E, 0x435, 0x20,
       0x43F, 0x440, 0x430, 0x432, 0x43E]"

definition delikt :: str where
  "delikt = [0x434, 0x435, 0x43B, 0x438, 0x43A, 0x442]"

text \<open>What \<open>str.lower\<close> does to a string of ASCII characters: \<open>A\<close> to \<open>Z\<close> become \<open>a\<close> to
  \<open>z\<close>. It stands for \<open>str.lower\<close> in the examples, whose strings are ASCII.\<close>

definition lower_ascii :: "str \<Rightarrow> str" where
  "lower_ascii s = map (\<lambda>c. if 0x41 \<le> c \<and> c \<le> 0x5A then c + 0x20 else c) s"

text \<open>The float operations as terms, for the examples: \<open>score / total\<close> is written
  \<open>Truediv score total\<close>, \<open>x * 100\<close> is \<open>Times x 100\<close> and \<open>round(x, 1)\<close> is \<open>Round x 1\<close>,
  so that an example shows which operations the handler applies, and to what.\<close>

datatype float_expr = Truediv int int | Times float_expr int | Round float_expr int

definition truediv_expr :: "int \<Rightarrow> int \<Rightarrow> error + float_expr" where
  "truediv_expr a b = (if b = 0 then Inl ZeroDivisionError else Inr (Truediv a b))"

section \<open>Dictionaries: lookup, keys and items after an update\<close>

lemma dict_get_eq_None: "dict_get d k = None \<longleftrightarrow> k \<notin> set (keys d)"
  by (induction d) (auto simp: keys_def)

lemma dict_get_in_set: "dict_get d k = Some v \<Longrightarrow> (k, v) \<in> set d"
  by (induction d) (auto split: if_splits)

lemma dict_get_dict_set: "dict_get (dict_set k v d) k' = (if k' = k then Some v else dict_get d k')"
  by (induction d) auto

lemma keys_dict_set: "set (keys (dict_set k v d)) = insert k (set (keys d))"
  by (induction d) (auto simp: keys_def)

lemma distinct_dict_set: "distinct (keys d) \<Longrightarrow> distinct (keys (dict_set k v d))"
proof (induction d)
  case Nil
  then show ?case by (simp add: keys_def)
next
  case (Cons p ps)
  have "set (keys (dict_set k v ps)) = insert k (set (keys ps))"
    by (rule keys_dict_set)
  with Cons show ?case by (auto simp: keys_def)
qed

lemma set_dict_set: "set (dict_set k v d) \<subseteq> insert (k, v) (set d)"
  by (induction d) auto

lemma dict_set_fresh: "k \<notin> set (keys d) \<Longrightarrow> dict_set k v d = d @ [(k, v)]"
  by (induction d) (auto simp: keys_def)

lemma dict_get_dict_del: "dict_get (dict_del k d) k' = (if k' = k then None else dict_get d k')"
  by (induction d) auto

lemma set_dict_del: "set (dict_del k d) \<subseteq> set d"
  by (induction d) auto

lemma distinct_dict_del: "distinct (keys d) \<Longrightarrow> distinct (keys (dict_del k d))"
proof (induction d)
  case Nil
  then show ?case by simp
next
  case (Cons p ps)
  have "set (dict_del k ps) \<subseteq> set ps" by (rule set_dict_del)
  then have "set (keys (dict_del k ps)) \<subseteq> set (keys ps)" by (auto simp: keys_def)
  with Cons show ?case by (auto simp: keys_def)
qed

lemma distinct_foldl_dict_set:
  "distinct (keys acc) \<Longrightarrow> distinct (keys (foldl (\<lambda>d p. dict_set (fst p) (snd p) d) acc ps))"
  by (induction ps arbitrary: acc) (auto simp: distinct_dict_set)

lemma distinct_dict_of_pairs: "distinct (keys (dict_of_pairs ps))"
  unfolding dict_of_pairs_def by (rule distinct_foldl_dict_set) (simp add: keys_def)

lemma set_foldl_dict_set:
  "set (foldl (\<lambda>d p. dict_set (fst p) (snd p) d) acc ps) \<subseteq> set acc \<union> set ps"
proof (induction ps arbitrary: acc)
  case Nil
  then show ?case by simp
next
  case (Cons p ps)
  have "set (dict_set (fst p) (snd p) acc) \<subseteq> insert p (set acc)"
    using set_dict_set [of "fst p" "snd p" acc] by simp
  with Cons [of "dict_set (fst p) (snd p) acc"] show ?case by auto
qed

lemma set_dict_of_pairs: "set (dict_of_pairs ps) \<subseteq> set ps"
  unfolding dict_of_pairs_def using set_foldl_dict_set [of "[]" ps] by simp

lemma foldl_dict_set_append:
  "distinct (keys (acc @ ps)) \<Longrightarrow> foldl (\<lambda>d p. dict_set (fst p) (snd p) d) acc ps = acc @ ps"
proof (induction ps arbitrary: acc)
  case Nil
  then show ?case by simp
next
  case (Cons p ps)
  from Cons.prems have fresh: "fst p \<notin> set (keys acc)" by (auto simp: keys_def)
  then have step: "dict_set (fst p) (snd p) acc = acc @ [p]" by (simp add: dict_set_fresh)
  from Cons.prems have "distinct (keys ((acc @ [p]) @ ps))" by (simp add: keys_def)
  then have "foldl (\<lambda>d p. dict_set (fst p) (snd p) d) (acc @ [p]) ps = (acc @ [p]) @ ps"
    by (rule Cons.IH)
  with step show ?case by simp
qed

lemma dict_of_pairs_id: "distinct (keys ps) \<Longrightarrow> dict_of_pairs ps = ps"
  unfolding dict_of_pairs_def using foldl_dict_set_append [of "[]" ps] by simp

lemma lex_newline_indent: "lex None (newline_indent n @ rest) = lex None rest"
proof -
  have "lex None (replicate m 0x20 @ rest) = lex None rest" for m
    by (induction m) (simp_all add: is_ws_def)
  then show ?thesis by (simp add: newline_indent_def is_ws_def)
qed

lemma lex_item_separator:
  "lex None (item_separator n @ rest) = map_option (Cons Comma) (lex None rest)"
  by (simp add: item_separator_def is_ws_def lex_newline_indent)

lemma lex_key_separator:
  "lex None (key_separator @ rest) = map_option (Cons Colon) (lex None rest)"
  by (simp add: key_separator_def is_ws_def)

lemma hex_value_hex_digit: "n < 16 \<Longrightarrow> hex_value (hex_digit n) = Some n"
  by (auto simp: hex_value_def hex_digit_def)

lemma hex4_control:
  assumes "c < 0x20"
  shows "hex4 [0x30, 0x30, hex_digit (c div 16), hex_digit (c mod 16)] = Some c"
proof -
  have a: "hex_value (hex_digit (c div 16)) = Some (c div 16)"
    using assms by (intro hex_value_hex_digit) simp
  have b: "hex_value (hex_digit (c mod 16)) = Some (c mod 16)"
    by (intro hex_value_hex_digit) simp
  have z: "hex_value 0x30 = Some 0" by (simp add: hex_value_def)
  show ?thesis by (simp add: hex4_def a b z)
qed

lemma lex_escape_char: "lex (Some acc) (escape_char c @ tail) = lex (Some (c # acc)) tail"
proof -
  consider (quote) "c = 0x22" | (backslash) "c = 0x5C" | (nl) "c = 0x0A" | (cr) "c = 0x0D"
    | (tab) "c = 0x09" | (bs) "c = 0x08" | (ff) "c = 0x0C"
    | (control) "c < 0x20" "c \<noteq> 0x0A" "c \<noteq> 0x0D" "c \<noteq> 0x09" "c \<noteq> 0x08" "c \<noteq> 0x0C"
    | (plain) "0x20 \<le> c" "c \<noteq> 0x22" "c \<noteq> 0x5C"
    by linarith
  then show ?thesis
  proof cases
    case control
    then have e: "escape_char c = [0x5C, 0x75, 0x30, 0x30, hex_digit (c div 16), hex_digit (c mod 16)]"
      by (simp add: escape_char_def)
    from control(1) have h: "hex4 [0x30, 0x30, hex_digit (c div 16), hex_digit (c mod 16)] = Some c"
      by (rule hex4_control)
    from control(1) show ?thesis by (simp add: e h)
  next
    case plain
    then show ?thesis by (simp add: escape_char_def)
  qed (simp_all add: escape_char_def unescape_def)
qed

lemma lex_string_body:
  "lex (Some acc) (concat (map escape_char s) @ 0x22 # rest) =
     map_option (Cons (Str (rev acc @ s))) (lex None rest)"
proof (induction s arbitrary: acc)
  case Nil
  show ?case by simp
next
  case (Cons c s)
  have "lex (Some acc) (concat (map escape_char (c # s)) @ 0x22 # rest) =
        lex (Some acc) (escape_char c @ (concat (map escape_char s) @ 0x22 # rest))"
    by simp
  also have "\<dots> = lex (Some (c # acc)) (concat (map escape_char s) @ 0x22 # rest)"
    by (rule lex_escape_char)
  also have "\<dots> = map_option (Cons (Str (rev (c # acc) @ s))) (lex None rest)"
    by (rule Cons.IH)
  finally show ?case by simp
qed

lemma lex_encode_basestring:
  "lex None (encode_basestring s @ rest) = map_option (Cons (Str s)) (lex None rest)"
  using lex_string_body [of "[]" s rest] by (simp add: encode_basestring_def is_ws_def)

lemma lex_words_items:
  "lex None (concat (words_items level first ws) @ rest) =
     map_option ((@) (words_tokens first ws)) (lex None rest)"
proof (induction ws arbitrary: first)
  case Nil
  show ?case by (simp add: option.map_ident)
next
  case (Cons kv kvs)
  show ?case
    by (cases first)
       (simp_all add: lex_item_separator lex_encode_basestring lex_key_separator Cons.IH
          option.map_comp comp_def)
qed

lemma lex_iterencode_words:
  "lex None (concat (iterencode_words level ws) @ rest) =
     map_option ((@) (object_tokens ws)) (lex None rest)"
  by (cases "lex None rest")
     (simp_all add: iterencode_words_def object_tokens_def is_ws_def lex_newline_indent
        lex_words_items)

lemma lex_dataset_items:
  "lex None (concat (dataset_items level first d) @ rest) =
     map_option ((@) (dataset_tokens first d)) (lex None rest)"
proof (induction d arbitrary: first)
  case Nil
  show ?case by (simp add: option.map_ident)
next
  case (Cons kv kvs)
  show ?case
    by (cases first)
       (simp_all add: lex_item_separator lex_encode_basestring lex_key_separator
          lex_iterencode_words Cons.IH option.map_comp comp_def)
qed

lemma lex_iterencode:
  "lex None (concat (iterencode d)) =
     Some (if d = [] then [LBrace, RBrace] else LBrace # dataset_tokens True d @ [RBrace])"
proof (cases "d = []")
  case True
  then show ?thesis by (simp add: iterencode_def is_ws_def)
next
  case False
  have "lex None (concat (dataset_items 1 True d) @ (newline_indent 0 @ [0x7D])) =
          map_option ((@) (dataset_tokens True d)) (lex None (newline_indent 0 @ [0x7D]))"
    by (rule lex_dataset_items)
  moreover have "lex None (newline_indent 0 @ [0x7D]) = Some [RBrace]"
    by (simp add: lex_newline_indent is_ws_def)
  ultimately show ?thesis
    using False by (simp add: iterencode_def is_ws_def lex_newline_indent)
qed

lemma inner_members_tokens:
  "inner_members (Str k # Colon # Str v # words_tokens False kvs @ RBrace # ts) =
     (case after_inner ts of None \<Rightarrow> None | Some others \<Rightarrow> Some ((k, v) # kvs, others))"
proof (induction kvs arbitrary: k v)
  case Nil
  show ?case by simp
next
  case (Cons kv kvs)
  show ?case
    using Cons.IH [of "fst kv" "snd kv"]
    by (simp split: option.splits)
qed

lemma object_members_tokens:
  "object_members (Str k # Colon # object_tokens ws @ dataset_tokens False d @ [RBrace]) =
     Some ((k, ws) # d)"
proof (induction d arbitrary: k ws)
  case Nil
  show ?case
  proof (cases ws)
    case Nil
    then show ?thesis by (simp add: object_tokens_def)
  next
    case (Cons kv kvs)
    then show ?thesis
      using inner_members_tokens [of "fst kv" "snd kv" kvs "[RBrace]"]
      by (simp add: object_tokens_def)
  qed
next
  case (Cons c d)
  have IH: "object_members (Str (fst c) # Colon # object_tokens (snd c) @ dataset_tokens False d @ [RBrace]) =
      Some ((fst c, snd c) # d)"
    by (rule Cons.IH)
  show ?case
  proof (cases ws)
    case Nil
    with IH show ?thesis by (simp add: object_tokens_def)
  next
    case (Cons kv kvs)
    with IH show ?thesis
      using inner_members_tokens [of "fst kv" "snd kv" kvs
          "Comma # Str (fst c) # Colon # object_tokens (snd c) @ dataset_tokens False d @ [RBrace]"]
      by (simp add: object_tokens_def)
  qed
qed

lemma read_text_iterencode: "read_text (concat (iterencode d)) = Document d"
proof (cases d)
  case Nil
  then show ?thesis by (simp add: read_text_def lex_iterencode)
next
  case (Cons c cs)
  have "object_members (Str (fst c) # Colon # object_tokens (snd c) @ dataset_tokens False cs @ [RBrace]) =
      Some ((fst c, snd c) # cs)"
    by (rule object_members_tokens)
  with Cons show ?thesis
    by (simp add: read_text_def lex_iterencode)
qed

subsection \<open>writing\<close>

lemma write_chunks_all:
  "list_all utf8_encodable cs \<Longrightarrow> write_chunks cs buf = (None, buf @ concat cs)"
  by (induction cs arbitrary: buf) simp_all

lemma write_chunks_fail:
  "\<not> list_all utf8_encodable cs \<Longrightarrow>
   write_chunks cs buf = (Some UnicodeEncodeError, buf @ concat (takeWhile utf8_encodable cs))"
  by (induction cs arbitrary: buf) simp_all

lemma surrogate_hex_digit: "n < 16 \<Longrightarrow> \<not> surrogate (hex_digit n)"
  by (simp add: surrogate_def hex_digit_def)

lemma utf8_encodable_escape_char: "utf8_encodable (escape_char c) = (\<not> surrogate c)"
proof (cases "c < 0x20")
  case True
  then have "c div 16 < 16" and "c mod 16 < 16" by simp_all
  then have "\<not> surrogate (hex_digit (c div 16))" and "\<not> surrogate (hex_digit (c mod 16))"
    by (simp_all add: surrogate_hex_digit)
  with True show ?thesis
    by (simp add: utf8_encodable_def escape_char_def) (simp add: surrogate_def)
next
  case False
  then show ?thesis
    by (simp add: utf8_encodable_def escape_char_def) (simp add: surrogate_def)
qed

lemma utf8_encodable_append [simp]:
  "utf8_encodable (a @ b) = (utf8_encodable a \<and> utf8_encodable b)"
  by (simp add: utf8_encodable_def)

lemma utf8_encodable_concat_escape:
  "utf8_encodable (concat (map escape_char s)) = utf8_encodable s"
proof (induction s)
  case Nil
  show ?case by simp
next
  case (Cons c s)
  have "utf8_encodable (c # s) = (\<not> surrogate c \<and> utf8_encodable s)"
    by (simp add: utf8_encodable_def)
  with Cons show ?case by (simp add: utf8_encodable_escape_char)
qed

lemma utf8_encodable_encode_basestring:
  "utf8_encodable (encode_basestring s) = utf8_encodable s"
proof -
  have q: "utf8_encodable [0x22]" by (simp add: utf8_encodable_def surrogate_def)
  have "encode_basestring s = [0x22] @ concat (map escape_char s) @ [0x22]"
    by (simp add: encode_basestring_def)
  then show ?thesis by (simp add: q utf8_encodable_concat_escape del: append.simps)
qed

lemma utf8_encodable_newline_indent: "utf8_encodable (newline_indent n)"
  by (simp add: utf8_encodable_def newline_indent_def surrogate_def list_all_iff)

lemma utf8_encodable_item_separator: "utf8_encodable (item_separator n)"
  using utf8_encodable_newline_indent [of n]
  by (simp add: utf8_encodable_def item_separator_def surrogate_def)

lemma utf8_encodable_punctuation:
  "utf8_encodable key_separator" "utf8_encodable [0x7B]" "utf8_encodable [0x7D]"
  "utf8_encodable [0x7B, 0x7D]"
  by (simp_all add: utf8_encodable_def key_separator_def surrogate_def)

lemmas utf8_chunks = utf8_encodable_encode_basestring utf8_encodable_newline_indent
  utf8_encodable_item_separator utf8_encodable_punctuation

lemma encodable_words_items:
  "list_all utf8_encodable (words_items level first ws) =
     list_all (\<lambda>w. utf8_encodable (fst w) \<and> utf8_encodable (snd w)) ws"
  by (induction ws arbitrary: first) (simp_all add: utf8_chunks)

lemma encodable_iterencode_words:
  "list_all utf8_encodable (iterencode_words level ws) =
     list_all (\<lambda>w. utf8_encodable (fst w) \<and> utf8_encodable (snd w)) ws"
  by (simp add: iterencode_words_def utf8_chunks encodable_words_items)

lemma encodable_dataset_items:
  "list_all utf8_encodable (dataset_items level first d) = encodable_dataset d"
  by (induction d arbitrary: first)
     (simp_all add: encodable_dataset_def utf8_chunks encodable_iterencode_words)

lemma encodable_iterencode: "list_all utf8_encodable (iterencode d) = encodable_dataset d"
  by (simp add: iterencode_def utf8_chunks encodable_dataset_items)
     (simp add: encodable_dataset_def)

lemma closedI:
  assumes "\<And>rest. lex None (c @ rest) =
             (case lex None rest of None \<Rightarrow> None | Some r \<Rightarrow> Some (ts @ r))"
  shows "closed c \<and> chunk_tokens c = ts"
proof -
  from assms [of "[]"] have "lex None c = Some ts" by simp
  then have ts: "chunk_tokens c = ts" by (simp add: chunk_tokens_def)
  have "closed c" unfolding closed_def ts using assms by simp
  with ts show ?thesis by simp
qed

lemma closed_string:
  "closed (encode_basestring s) \<and> chunk_tokens (encode_basestring s) = [Str s]"
  by (rule closedI) (simp add: lex_encode_basestring map_option_case split: option.splits)

lemma closed_newline_indent: "closed (newline_indent n) \<and> chunk_tokens (newline_indent n) = []"
  by (rule closedI) (simp add: lex_newline_indent split: option.splits)

lemma closed_item_separator:
  "closed (item_separator n) \<and> chunk_tokens (item_separator n) = [Comma]"
  by (rule closedI) (simp add: lex_item_separator map_option_case split: option.splits)

lemma closed_key_separator: "closed key_separator \<and> chunk_tokens key_separator = [Colon]"
  by (rule closedI) (simp add: lex_key_separator map_option_case split: option.splits)

lemma closed_lbrace: "closed [0x7B] \<and> chunk_tokens [0x7B] = [LBrace]"
  by (rule closedI) (simp add: is_ws_def map_option_case split: option.splits)

lemma closed_rbrace: "closed [0x7D] \<and> chunk_tokens [0x7D] = [RBrace]"
  by (rule closedI) (simp add: is_ws_def map_option_case split: option.splits)

lemma closed_braces: "closed [0x7B, 0x7D] \<and> chunk_tokens [0x7B, 0x7D] = [LBrace, RBrace]"
  by (rule closedI) (simp add: is_ws_def map_option_case split: option.splits)

lemmas closed_chunks = closed_string closed_newline_indent closed_item_separator
  closed_key_separator closed_lbrace closed_rbrace closed_braces

lemma lex_concat_closed:
  "list_all closed cs \<Longrightarrow> lex None (concat cs) = Some (concat (map chunk_tokens cs))"
  by (induction cs) (simp_all add: closed_def)

lemma closed_words_items: "list_all closed (words_items level first ws)"
  by (induction ws arbitrary: first) (simp_all add: closed_chunks)

lemma closed_iterencode_words: "list_all closed (iterencode_words level ws)"
  by (simp add: iterencode_words_def closed_chunks closed_words_items)

lemma closed_dataset_items: "list_all closed (dataset_items level first d)"
  by (induction d arbitrary: first) (simp_all add: closed_chunks closed_iterencode_words)

lemma closed_iterencode: "list_all closed (iterencode d)"
  by (simp add: iterencode_def closed_chunks closed_dataset_items)

lemma closed_takeWhile: "list_all closed cs \<Longrightarrow> list_all closed (takeWhile P cs)"
  by (auto simp: list_all_iff dest: set_takeWhileD)

subsection \<open>a write that fails leaves a text that ends on an opening token\<close>

lemma guarded_append:
  "guarded ctx (as @ bs) = (guarded ctx as \<and> guarded (ctx @ concat (map chunk_tokens as)) bs)"
  by (induction as arbitrary: ctx) simp_all

lemma guarded_takeWhile:
  "guarded ctx cs \<Longrightarrow> \<not> list_all utf8_encodable cs \<Longrightarrow>
   opens (ctx @ concat (map chunk_tokens (takeWhile utf8_encodable cs)))"
proof (induction cs arbitrary: ctx)
  case Nil
  then show ?case by simp
next
  case (Cons c cs)
  show ?case
  proof (cases "utf8_encodable c")
    case True
    with Cons.prems have "guarded (ctx @ chunk_tokens c) cs" and "\<not> list_all utf8_encodable cs"
      by simp_all
    then have "opens ((ctx @ chunk_tokens c) @ concat (map chunk_tokens (takeWhile utf8_encodable cs)))"
      by (rule Cons.IH)
    with True show ?thesis by simp
  next
    case False
    with Cons.prems show ?thesis by simp
  qed
qed

lemma opens_append [simp]: "us \<noteq> [] \<Longrightarrow> opens (ts @ us) = opens us"
  by (simp add: opens_def)

lemma opens_Cons [simp]: "us \<noteq> [] \<Longrightarrow> opens (t # us) = opens us"
  by (simp add: opens_def)

lemma opens_single [simp]: "opens [t] = (t = LBrace \<or> t = Comma \<or> t = Colon)"
  by (simp add: opens_def)

lemma guarded_words_items:
  "first \<longrightarrow> opens ctx \<Longrightarrow> guarded ctx (words_items level first ws)"
proof (induction ws arbitrary: first ctx)
  case Nil
  show ?case by simp
next
  case (Cons kv kvs)
  have rest: "guarded (ctx' @ [Str (snd kv)]) (words_items level False kvs)" for ctx'
    by (rule Cons.IH) simp
  show ?case
  proof (cases first)
    case True
    with Cons.prems have "opens ctx" by simp
    with True rest [of "ctx @ [Str (fst kv), Colon]"] show ?thesis
      by (simp add: closed_chunks utf8_chunks)
  next
    case False
    with rest [of "ctx @ [Comma, Str (fst kv), Colon]"] show ?thesis
      by (simp add: closed_chunks utf8_chunks)
  qed
qed


lemma chunk_tokens_words_items:
  "concat (map chunk_tokens (words_items level first ws)) = words_tokens first ws"
  by (induction ws arbitrary: first) (simp_all add: closed_chunks)

lemma chunk_tokens_iterencode_words:
  "concat (map chunk_tokens (iterencode_words level ws)) = object_tokens ws"
  by (simp add: iterencode_words_def object_tokens_def closed_chunks chunk_tokens_words_items)

lemma guarded_iterencode_words: "guarded ctx (iterencode_words level ws)"
  by (simp add: iterencode_words_def closed_chunks utf8_chunks guarded_append
        guarded_words_items chunk_tokens_words_items)

lemma guarded_dataset_items:
  "first \<longrightarrow> opens ctx \<Longrightarrow> guarded ctx (dataset_items level first d)"
proof (induction d arbitrary: first ctx)
  case Nil
  show ?case by simp
next
  case (Cons kv kvs)
  have rest: "guarded ctx' (dataset_items level False kvs)" for ctx'
    by (rule Cons.IH) simp
  show ?case
  proof (cases first)
    case True
    with Cons.prems have "opens ctx" by simp
    with True rest show ?thesis
      by (simp add: closed_chunks utf8_chunks guarded_append guarded_iterencode_words)
  next
    case False
    with rest show ?thesis
      by (simp add: closed_chunks utf8_chunks guarded_append guarded_iterencode_words)
  qed
qed

lemma guarded_iterencode: "guarded [] (iterencode d)"
  by (simp add: iterencode_def closed_chunks utf8_chunks guarded_append guarded_dataset_items)

lemma members_end:
  "object_members ts = Some ms \<Longrightarrow> ts \<noteq> [] \<and> last ts = RBrace"
  "inner_members ts2 = Some r \<Longrightarrow> ts2 \<noteq> [] \<and> last ts2 = RBrace"
  "after_inner ts3 = Some ms3 \<Longrightarrow> ts3 \<noteq> [] \<and> last ts3 = RBrace"
proof (induction ts and ts2 and ts3 arbitrary: ms and r and ms3
    rule: object_members_inner_members_after_inner.induct)
qed (auto split: option.splits)

lemma read_text_opens:
  assumes "lex None text = Some ts" and "opens ts"
  shows "read_text text = Unparseable"
proof -
  from assms(2) have ne: "ts \<noteq> []" and l: "last ts \<noteq> RBrace"
    by (auto simp: opens_def)
  show ?thesis
  proof (cases ts)
    case Nil
    with ne show ?thesis by simp
  next
    case (Cons t ts')
    show ?thesis
    proof (cases "object_members ts'")
      case None
      with Cons assms(1) l show ?thesis
        by (auto simp: read_text_def split: token.splits list.splits)
    next
      case (Some ms)
      then have "ts' \<noteq> [] \<and> last ts' = RBrace" by (rule members_end(1))
      with Cons l show ?thesis by simp
    qed
  qed
qed

lemma save_data_ok:
  assumes "encodable_dataset d"
  shows "save_data d st = (None, Some (Document d))"
  using assms
  by (simp add: save_data_def write_chunks_all encodable_iterencode read_text_iterencode)

lemma save_data_fail:
  assumes "\<not> encodable_dataset d"
  shows "save_data d st = (Some UnicodeEncodeError, Some Unparseable)"
proof -
  let ?cs = "takeWhile utf8_encodable (iterencode d)"
  from assms have bad: "\<not> list_all utf8_encodable (iterencode d)"
    by (simp add: encodable_iterencode)
  then have w: "write_chunks (iterencode d) [] = (Some UnicodeEncodeError, concat ?cs)"
    using write_chunks_fail [of "iterencode d" "[]"] by simp
  have "list_all closed ?cs" by (rule closed_takeWhile) (rule closed_iterencode)
  then have "lex None (concat ?cs) = Some (concat (map chunk_tokens ?cs))"
    by (rule lex_concat_closed)
  moreover from guarded_takeWhile [OF guarded_iterencode bad]
  have "opens (concat (map chunk_tokens ?cs))" by simp
  ultimately have "read_text (concat ?cs) = Unparseable" by (rule read_text_opens)
  with w show ?thesis by (simp add: save_data_def)
qed

section \<open>The store: what \<open>save_data\<close> leaves and what \<open>load_data\<close> returns\<close>

lemma json_load_document: "wf_dataset d \<Longrightarrow> json_load (Document d) = Some d"
proof -
  assume wf: "wf_dataset d"
  have inner: "map (\<lambda>m. (fst m, dict_of_pairs (snd m))) d = d"
  proof (rule map_idI)
    fix m assume "m \<in> set d"
    with wf have "distinct (keys (snd m))" by (simp add: wf_dataset_def list_all_iff)
    then show "(fst m, dict_of_pairs (snd m)) = m" by (simp add: dict_of_pairs_id)
  qed
  from wf have "dict_of_pairs d = d" by (simp add: wf_dataset_def dict_of_pairs_id)
  with inner show ?thesis by (simp add: json_load_def)
qed

lemma wf_json_load: "json_load f = Some d \<Longrightarrow> wf_dataset d"
proof (cases f)
  case Unparseable
  assume "json_load f = Some d"
  with Unparseable show ?thesis by (simp add: json_load_def)
next
  case (Document ms)
  assume "json_load f = Some d"
  with Document have d: "d = dict_of_pairs (map (\<lambda>m. (fst m, dict_of_pairs (snd m))) ms)"
    by (simp add: json_load_def)
  have "set d \<subseteq> set (map (\<lambda>m. (fst m, dict_of_pairs (snd m))) ms)"
    unfolding d by (rule set_dict_of_pairs)
  then have "\<forall>p\<in>set d. distinct (keys (snd p))"
    by (auto simp: distinct_dict_of_pairs)
  then show ?thesis by (simp add: wf_dataset_def list_all_iff d distinct_dict_of_pairs)
qed

lemma wf_get_default_data: "wf_dataset get_default_data"
  by (simp add: wf_dataset_def get_default_data_def keys_def ascii_def)

lemma no_empty_get_default_data: "no_empty_categories get_default_data"
  by (simp add: no_empty_categories_def get_default_data_def)

lemma encodable_get_default_data: "encodable_dataset get_default_data"
  by (simp add: encodable_dataset_def get_default_data_def utf8_encodable_def surrogate_def
      ascii_def)

text \<open>The seed is written without an exception, so \<open>load_data\<close> raises nothing when the
  file is absent.\<close>

lemma save_default_data:
  "save_data get_default_data st = (None, Some (Document get_default_data))"
  by (rule save_data_ok) (rule encodable_get_default_data)

lemma wf_load_data: "wf_dataset (fst (load_data st))"
  by (auto simp: load_data_def wf_get_default_data wf_json_load split: option.splits)

lemma load_data_parsed: "json_load f = Some d \<Longrightarrow> load_data (Some f) = (d, Some f)"
  by (simp add: load_data_def)

lemma load_data_document:
  "wf_dataset d \<Longrightarrow> load_data (Some (Document d)) = (d, Some (Document d))"
  by (simp add: load_data_parsed json_load_document)

lemma load_data_rejected:
  "load_data (Some Unparseable) = (get_default_data, Some Unparseable)"
  by (simp add: load_data_def json_load_def)

lemma load_data_absent:
  "load_data None = (get_default_data, Some (Document get_default_data))"
  by (simp add: load_data_def save_default_data)

lemma holds_load_data_absent: "holds (snd (load_data None)) (fst (load_data None))"
  by (simp add: load_data_absent holds_def json_load_document wf_get_default_data)

lemma load_after_save:
  "wf_dataset d \<Longrightarrow>
   fst (load_data (snd (save_data d st))) = (if encodable_dataset d then d else get_default_data)"
  by (simp add: save_data_ok save_data_fail load_data_document load_data_rejected)

lemma no_empty_load_after_save:
  "wf_dataset d \<Longrightarrow> no_empty_categories d \<Longrightarrow>
   no_empty_categories (fst (load_data (snd (save_data d st))))"
  by (simp add: load_after_save no_empty_get_default_data)

lemma fst_after_save:
  "fst (after_save saved response) = (case fst saved of None \<Rightarrow> Inr response | Some e \<Rightarrow> Inl e)"
  by (simp add: after_save_def split: prod.splits option.splits)

lemma snd_after_save: "snd (after_save saved response) = snd saved"
  by (simp add: after_save_def split: prod.splits option.splits)

lemma after_save_ok:
  "encodable_dataset d \<Longrightarrow> after_save (save_data d st) r = (Inr r, Some (Document d))"
  by (simp add: save_data_ok after_save_def)

lemma after_save_fail:
  "\<not> encodable_dataset d \<Longrightarrow>
   after_save (save_data d st) r = (Inl UnicodeEncodeError, Some Unparseable)"
  by (simp add: save_data_fail after_save_def)

text \<open>
  C3. \<open>load_data\<close> always returns: the persisted dataset when the file exists and parses
  (\<open>load_data_parsed\<close>), the seed otherwise, and it saves the seed when the file is absent
  (\<open>load_data_absent\<close>, \<open>holds_load_data_absent\<close>). When the file exists and does not
  parse, the \<open>except\<close> branch returns the seed without saving it: the file is left as it
  was and does not hold the returned dataset.
\<close>

theorem load_data_unparseable_not_persisted:
  "load_data (Some Unparseable) = (get_default_data, Some Unparseable) \<and>
   \<not> holds (snd (load_data (Some Unparseable))) (fst (load_data (Some Unparseable)))"
  by (simp add: load_data_def json_load_def holds_def)

text \<open>
  C8. Round trip. \<open>save_data\<close> followed by \<open>load_data\<close> does not return every well-formed
  dataset without empty categories: a dataset with a term that is a lone surrogate is
  well formed and has no empty category, but \<open>save_data\<close> raises \<open>UnicodeEncodeError\<close> at that
  term, the file keeps the text written before it, which \<open>json.load\<close> rejects, and
  \<open>load_data\<close> returns the seed.
\<close>

theorem save_then_load_surrogate:
  "wf_dataset surrogate_words \<and> no_empty_categories surrogate_words \<and>
   save_data surrogate_words None = (Some UnicodeEncodeError, Some Unparseable) \<and>
   fst (load_data (snd (save_data surrogate_words None))) = get_default_data \<and>
   get_default_data \<noteq> surrogate_words"
proof -
  have wf: "wf_dataset surrogate_words"
    by (simp add: surrogate_words_def wf_dataset_def keys_def)
  have ne: "no_empty_categories surrogate_words"
    by (simp add: surrogate_words_def no_empty_categories_def)
  have bad: "\<not> encodable_dataset surrogate_words"
    by (simp add: surrogate_words_def encodable_dataset_def utf8_encodable_def surrogate_def)
  have diff: "get_default_data \<noteq> surrogate_words"
    by (simp add: surrogate_words_def get_default_data_def)
  from wf ne diff show ?thesis
    by (simp add: save_data_fail [OF bad] load_data_rejected)
qed

text \<open>
  C8, amended. For every well-formed dataset without empty categories whose strings can
  be encoded in UTF-8 (none holds a surrogate code point), \<open>save_data\<close> raises nothing
  and \<open>load_data\<close> then returns that dataset, whatever the file held before: the text that
  \<open>json.dump\<close> writes is read back by \<open>json.load\<close> as the same dictionaries.
\<close>

theorem save_then_load_encodable:
  "wf_dataset d \<Longrightarrow> no_empty_categories d \<Longrightarrow> encodable_dataset d \<Longrightarrow>
   fst (save_data d st) = None \<and> fst (load_data (snd (save_data d st))) = d"
  by (simp add: save_data_ok load_data_document)

theorem save_then_load_encodable_witness:
  "wf_dataset get_default_data \<and> no_empty_categories get_default_data \<and>
   encodable_dataset get_default_data \<and>
   fst (save_data get_default_data (Some Unparseable)) = None \<and>
   fst (load_data (snd (save_data get_default_data (Some Unparseable)))) = get_default_data"
proof -
  note h = wf_get_default_data no_empty_get_default_data encodable_get_default_data
  from h save_then_load_encodable [OF h, of "Some Unparseable"] show ?thesis by simp
qed


section \<open>The quiz: answering\<close>

text \<open>
  C10. The response of \<open>check_answer\<close> and the session it leaves depend on the session and
  on the answer only: with any two stores they are the same, so an edit of the vocabulary
  after the quiz has started does not change which answer counts as correct.
\<close>

theorem check_answer_ignores_store:
  "fst (check_answer lower st1 s answer) = fst (check_answer lower st2 s answer)"
  by (simp add: check_answer_def Let_def split: prod.splits sum.splits)

text \<open>
  C5. When the position has reached the number of items (also in a session where no quiz
  was started, which has no items), \<open>check_answer\<close> answers \<open>{finished: true}\<close>, raises
  nothing and leaves the session as it is: no item is read. In a session that satisfies
  the invariant the handler never raises at all (\<open>check_answer_no_error\<close> below).
\<close>

theorem check_answer_exhausted:
  "int (length (session_items s)) \<le> session_position s \<Longrightarrow>
   fst (check_answer lower st s answer) = Inr (Finished, s)"
  by (simp add: check_answer_def session_items_def session_position_def Let_def
      split: prod.splits)

theorem check_answer_exhausted_witness:
  "int (length (session_items empty_session)) \<le> session_position empty_session \<and>
   fst (check_answer lower_ascii None empty_session (Some (ascii ''x''))) =
     Inr (Finished, empty_session)"
proof -
  have h: "int (length (session_items empty_session)) \<le> session_position empty_session"
    by (simp add: session_items_def session_position_def empty_session_def get_or_def)
  from h check_answer_exhausted [OF h] show ?thesis by simp
qed

lemma getitem_in_range: "0 \<le> i \<Longrightarrow> i < int (length xs) \<Longrightarrow> getitem xs i = Inr (xs ! nat i)"
  by (simp add: getitem_def)

text \<open>
  C4. In a session whose position is below the number of items, \<open>check_answer\<close> compares
  the answer, stripped and lower-cased, with the lower-cased translation of the item at
  the position, by equality; it answers with that verdict and the translation, adds one
  to the score exactly when the verdict is true, adds one to the position, and reports
  \<open>finished\<close> exactly when the new position is the number of items. This holds whatever
  function \<open>str.lower\<close> is. The examples are a first answer that differs from the
  translation in case and in the spaces around it, a first answer that differs in a
  letter, and a correct answer to the last item.
\<close>

theorem check_answer_in_progress:
  assumes "0 \<le> session_position s"
    and "session_position s < int (length (session_items s))"
  shows "let translation = snd (session_items s ! nat (session_position s));
             correct = (lower (strip (get_or answer [])) = lower translation)
         in fst (check_answer lower st s answer) =
              Inr (Checked correct translation
                     (session_position s + 1 = int (length (session_items s))),
                   s\<lparr>score := (if correct then Some (session_score s + 1) else score s),
                     current_index := Some (session_position s + 1)\<rparr>)"
proof -
  let ?items = "get_or (test_words s) []"
  let ?pos = "get_or (current_index s) 0"
  from assms have pos: "0 \<le> ?pos" and lt: "?pos < int (length ?items)"
    by (simp_all add: session_items_def session_position_def)
  from pos lt have item: "getitem ?items ?pos = Inr (?items ! nat ?pos)"
    by (rule getitem_in_range)
  from lt have fin: "(int (length ?items) \<le> ?pos + 1) = (?pos + 1 = int (length ?items))"
    by auto
  obtain w t where wt: "?items ! nat ?pos = (w, t)"
    by (cases "?items ! nat ?pos")
  from lt item fin wt show ?thesis
    by (simp add: check_answer_def session_items_def session_position_def session_score_def
        Let_def split: prod.splits) (simp add: get_or_def)
qed

theorem check_answer_in_progress_witness:
  "0 \<le> session_position two_words \<and>
   session_position two_words < int (length (session_items two_words)) \<and>
   fst (check_answer lower_ascii None two_words (Some (ascii '' DELIKT ''))) =
     Inr (Checked True (ascii ''Delikt'') False,
          two_words\<lparr>score := Some 1, current_index := Some 1\<rparr>) \<and>
   fst (check_answer lower_ascii None two_words (Some (ascii ''delict''))) =
     Inr (Checked False (ascii ''Delikt'') False,
          two_words\<lparr>score := Some 0, current_index := Some 1\<rparr>) \<and>
   0 \<le> session_position one_of_two \<and>
   session_position one_of_two < int (length (session_items one_of_two)) \<and>
   fst (check_answer lower_ascii None one_of_two (Some (ascii ''B''))) =
     Inr (Checked True (ascii ''b'') True,
          one_of_two\<lparr>score := Some 2, current_index := Some 2\<rparr>)"
proof -
  have p: "0 \<le> session_position two_words"
    by (simp add: session_position_def two_words_def get_or_def)
  have l: "session_position two_words < int (length (session_items two_words))"
    by (simp add: session_position_def session_items_def two_words_def get_or_def)
  have p1: "0 \<le> session_position one_of_two"
    by (simp add: session_position_def one_of_two_def get_or_def)
  have l1: "session_position one_of_two < int (length (session_items one_of_two))"
    by (simp add: session_position_def session_items_def one_of_two_def get_or_def)
  have right: "lower_ascii (strip (get_or (Some (ascii '' DELIKT '')) [])) =
               lower_ascii (ascii ''Delikt'')"
    by (simp add: get_or_def ascii_def strip_def isspace_def lower_ascii_def)
  have wrong: "lower_ascii (strip (get_or (Some (ascii ''delict'')) [])) \<noteq>
               lower_ascii (ascii ''Delikt'')"
    by (simp add: get_or_def ascii_def strip_def isspace_def lower_ascii_def)
  have last: "lower_ascii (strip (get_or (Some (ascii ''B'')) [])) = lower_ascii (ascii ''b'')"
    by (simp add: get_or_def ascii_def strip_def isspace_def lower_ascii_def)
  have sc: "session_score two_words = 0" "session_position two_words = 0"
    "session_items two_words = [(ascii ''crime'', ascii ''Delikt''), (ascii ''penalty'', ascii ''b'')]"
    "score two_words = Some 0"
    by (simp_all add: session_score_def session_position_def session_items_def two_words_def
        get_or_def)
  have sc1: "session_score one_of_two = 1" "session_position one_of_two = 1"
    "session_items one_of_two = [(ascii ''crime'', ascii ''Delikt''), (ascii ''penalty'', ascii ''b'')]"
    by (simp_all add: session_score_def session_position_def session_items_def one_of_two_def
        get_or_def)
  from check_answer_in_progress [OF p l, of lower_ascii "Some (ascii '' DELIKT '')" None]
  have a: "fst (check_answer lower_ascii None two_words (Some (ascii '' DELIKT ''))) =
     Inr (Checked True (ascii ''Delikt'') False,
          two_words\<lparr>score := Some 1, current_index := Some 1\<rparr>)"
    by (simp add: Let_def right sc)
  from check_answer_in_progress [OF p l, of lower_ascii "Some (ascii ''delict'')" None]
  have b: "fst (check_answer lower_ascii None two_words (Some (ascii ''delict''))) =
     Inr (Checked False (ascii ''Delikt'') False,
          two_words\<lparr>score := Some 0, current_index := Some 1\<rparr>)"
    by (simp add: Let_def wrong sc)
  from check_answer_in_progress [OF p1 l1, of lower_ascii "Some (ascii ''B'')" None]
  have c: "fst (check_answer lower_ascii None one_of_two (Some (ascii ''B''))) =
     Inr (Checked True (ascii ''b'') True,
          one_of_two\<lparr>score := Some 2, current_index := Some 2\<rparr>)"
    by (simp add: Let_def last sc1)
  from p l a b p1 l1 c show ?thesis by simp
qed


section \<open>The quiz: the session invariant\<close>

lemma session_inv_empty: "session_inv empty_session"
  by (simp add: session_inv_def empty_session_def session_position_def session_items_def
      session_score_def get_or_def)

lemma session_inv_test: "session_inv s \<Longrightarrow> session_inv (fst (snd (test st s cat)))"
  by (simp add: test_def Let_def session_inv_def session_position_def session_items_def
      session_score_def get_or_def split: prod.splits option.splits)

lemma check_answer_session:
  "fst (check_answer lower st s answer) = Inr (r, s') \<Longrightarrow>
   s' = s \<and> int (length (session_items s)) \<le> session_position s \<or>
   session_position s < int (length (session_items s)) \<and>
   test_words s' = test_words s \<and>
   current_index s' = Some (session_position s + 1) \<and>
   (score s' = score s \<or> score s' = Some (session_score s + 1))"
  by (auto simp: check_answer_def Let_def session_items_def session_position_def
      session_score_def split: prod.splits sum.splits if_splits)

lemma session_inv_check_answer:
  assumes inv: "session_inv s" and res: "fst (check_answer lower st s answer) = Inr (r, s')"
  shows "session_inv s'"
  using check_answer_session [OF res] inv
  by (auto simp: session_inv_def session_position_def session_items_def session_score_def
      get_or_def)

lemma check_answer_no_error:
  "session_inv s \<Longrightarrow> \<exists>r s'. fst (check_answer lower st s answer) = Inr (r, s')"
  by (auto simp: check_answer_def Let_def session_inv_def session_items_def
      session_position_def getitem_def split: prod.splits sum.splits)

text \<open>
  C6. Every session reachable from the empty session by quiz starts and answer
  submissions, with any store, category and answer at each request, satisfies
  \<open>0 \<le> position \<le> len(items)\<close> and \<open>0 \<le> score \<le> position\<close>, whatever function
  \<open>str.lower\<close> is.
\<close>

theorem reachable_session_inv: "reachable lower s \<Longrightarrow> session_inv s"
proof (induction rule: reachable.induct)
  case reach_empty
  show ?case by (rule session_inv_empty)
next
  case (reach_test s st cat)
  then show ?case by (simp add: session_inv_test)
next
  case (reach_check s st answer r s')
  then show ?case by (blast intro: session_inv_check_answer)
qed

theorem reachable_session_inv_witness:
  "reachable lower_ascii (fst (snd (test None empty_session (fst (get_default_data ! 1))))) \<and>
   session_inv (fst (snd (test None empty_session (fst (get_default_data ! 1)))))"
proof -
  have r: "reachable lower_ascii (fst (snd (test None empty_session (fst (get_default_data ! 1)))))"
    by (rule reach_test) (rule reach_empty)
  from r reachable_session_inv [OF r] show ?thesis by simp
qed


section \<open>The quiz: the results\<close>

text \<open>With a session that satisfies the invariant the division is of a score between 0
  and the total by a positive total; when \<open>truediv\<close> returns for such arguments, so does
  \<open>results\<close>.\<close>

lemma results_no_error:
  assumes "\<And>a b. 0 \<le> a \<Longrightarrow> a \<le> b \<Longrightarrow> 0 < b \<Longrightarrow> \<exists>q. truediv a b = Inr q"
    and "session_inv s"
  shows "\<exists>r. fst (results truediv mul round_ndigits s) = Inr r"
proof (cases "session_items s = []")
  case True
  then show ?thesis by (simp add: results_def session_items_def)
next
  case False
  from assms(2) have "0 \<le> session_score s"
    and "session_score s \<le> int (length (session_items s))"
    by (simp_all add: session_inv_def)
  moreover from False have "0 < int (length (session_items s))" by simp
  ultimately obtain q where "truediv (session_score s) (int (length (session_items s))) = Inr q"
    using assms(1) by blast
  with False show ?thesis
    by (simp add: results_def session_items_def session_score_def Let_def)
qed

text \<open>
  C9. For every session, \<open>results\<close> leaves the session as it is and reads \<open>score\<close>, the
  number of items as \<open>total\<close> and \<open>category\<close> with the defaults 0, no item and the empty
  string. Without items the percentage is the integer 0 and nothing is divided, so the
  empty session gets \<open>(0, 0, '', 0)\<close>; with items the percentage is
  \<open>round(score / total * 100, 1)\<close>, the operations applied in this order to the value of
  the division, and an exception of the division is the handler's. The position is not
  read, so the quiz need not be finished.
\<close>

theorem results_reads_session:
  "snd (results truediv mul round_ndigits s) = s \<and>
   (session_items s = [] \<longrightarrow>
      fst (results truediv mul round_ndigits s) =
        Inr (Render_results (session_score s) 0 (get_or (category s) []) (Int_value 0))) \<and>
   (session_items s \<noteq> [] \<longrightarrow>
      fst (results truediv mul round_ndigits s) =
        (case truediv (session_score s) (int (length (session_items s))) of
           Inl e \<Rightarrow> Inl e
         | Inr q \<Rightarrow>
             Inr (Render_results (session_score s) (length (session_items s))
                    (get_or (category s) [])
                    (Float_value (round_ndigits (mul q 100) 1)))))"
  by (simp add: results_def session_items_def session_score_def Let_def split: sum.splits)

theorem results_reads_session_witness:
  "session_items empty_session = [] \<and>
   results truediv_expr Times Round empty_session =
     (Inr (Render_results 0 0 [] (Int_value 0)), empty_session) \<and>
   session_items one_of_two \<noteq> [] \<and>
   results truediv_expr Times Round one_of_two =
     (Inr (Render_results 1 2 (ascii ''Law'')
             (Float_value (Round (Times (Truediv 1 2) 100) 1))),
      one_of_two)"
proof -
  have e: "session_items empty_session = []" "session_score empty_session = 0"
    "get_or (category empty_session) [] = []"
    by (simp_all add: session_items_def session_score_def empty_session_def get_or_def)
  have o: "session_items one_of_two \<noteq> []" "length (session_items one_of_two) = 2"
    "session_score one_of_two = 1" "get_or (category one_of_two) [] = ascii ''Law''"
    by (simp_all add: session_items_def session_score_def one_of_two_def get_or_def)
  from results_reads_session [of truediv_expr Times Round empty_session] e
  have a: "results truediv_expr Times Round empty_session =
     (Inr (Render_results 0 0 [] (Int_value 0)), empty_session)"
    by (simp add: prod_eq_iff)
  from results_reads_session [of truediv_expr Times Round one_of_two] o
  have b: "results truediv_expr Times Round one_of_two =
     (Inr (Render_results 1 2 (ascii ''Law'')
             (Float_value (Round (Times (Truediv 1 2) 100) 1))),
      one_of_two)"
    by (simp add: prod_eq_iff truediv_expr_def)
  from e(1) a o(1) b show ?thesis by simp
qed

section \<open>Deleting words and categories\<close>

lemma api_words_delete:
  "api_words st (Api_delete c e) =
     after_save (save_data (deleted_dataset (fst (load_data st)) c e) (snd (load_data st)))
       Success"
proof (cases "load_data st")
  case (Pair data st')
  then show ?thesis
    by (simp add: api_words_def deleted_dataset_def remove_word_def split: option.splits)
qed

lemma set_dict_del_eq: "set (dict_del k d) = {p \<in> set d. fst p \<noteq> k}"
  by (induction d) auto

lemma set_dict_del_dict_set: "set (dict_del k (dict_set k v d)) \<subseteq> set d"
proof
  fix p assume "p \<in> set (dict_del k (dict_set k v d))"
  then have "fst p \<noteq> k" and "p \<in> set (dict_set k v d)"
    by (simp_all add: set_dict_del_eq)
  moreover have "set (dict_set k v d) \<subseteq> insert (k, v) (set d)"
    by (rule set_dict_set)
  ultimately show "p \<in> set d" by auto
qed

lemma no_empty_dict_del: "no_empty_categories d \<Longrightarrow> no_empty_categories (dict_del k d)"
  using set_dict_del [of k d] by (auto simp: no_empty_categories_def list_all_iff)

lemma no_empty_dict_del_dict_set:
  "no_empty_categories d \<Longrightarrow> no_empty_categories (dict_del k (dict_set k ws d))"
  using set_dict_del_dict_set [of k ws d] by (auto simp: no_empty_categories_def list_all_iff)

lemma no_empty_dict_set:
  "no_empty_categories d \<Longrightarrow> ws \<noteq> [] \<Longrightarrow> no_empty_categories (dict_set k ws d)"
  using set_dict_set [of k ws d] by (auto simp: no_empty_categories_def list_all_iff)

lemma wf_dict_del: "wf_dataset d \<Longrightarrow> wf_dataset (dict_del k d)"
  using set_dict_del [of k d]
  by (auto simp: wf_dataset_def list_all_iff distinct_dict_del)

lemma wf_dict_set:
  "wf_dataset d \<Longrightarrow> distinct (keys ws) \<Longrightarrow> wf_dataset (dict_set k ws d)"
  using set_dict_set [of k ws d]
  by (auto simp: wf_dataset_def list_all_iff distinct_dict_set)

lemma wf_words:
  assumes "wf_dataset d" and "dict_get d c = Some ws"
  shows "distinct (keys ws)"
proof -
  from assms(2) have "(c, ws) \<in> set d" by (rule dict_get_in_set)
  with assms(1) show ?thesis by (auto simp: wf_dataset_def list_all_iff)
qed

lemma no_empty_remove_word:
  "no_empty_categories d \<Longrightarrow> no_empty_categories (remove_word d cat e ws)"
  by (simp add: remove_word_def Let_def dict_get_dict_set get_or_def
      no_empty_dict_del_dict_set no_empty_dict_set)

lemma no_empty_deleted:
  "no_empty_categories d \<Longrightarrow> no_empty_categories (deleted_dataset d c e)"
  by (simp add: deleted_dataset_def no_empty_remove_word no_empty_dict_del
      split: option.splits)

lemma wf_remove_word:
  "wf_dataset d \<Longrightarrow> distinct (keys ws) \<Longrightarrow> wf_dataset (remove_word d cat e ws)"
  by (simp add: remove_word_def Let_def wf_dict_del wf_dict_set distinct_dict_del)

lemma wf_deleted:
  assumes wf: "wf_dataset d"
  shows "wf_dataset (deleted_dataset d c e)"
proof -
  have "wf_dataset (remove_word d cat t ws)" if "dict_get d cat = Some ws" for cat t ws
    using wf wf_words [OF wf that] by (rule wf_remove_word)
  with wf show ?thesis
    by (simp add: deleted_dataset_def wf_dict_del split: option.splits)
qed

lemma load_after_delete:
  "fst (load_data (snd (api_words st (Api_delete c e)))) =
     (if encodable_dataset (deleted_dataset (fst (load_data st)) c e)
      then deleted_dataset (fst (load_data st)) c e else get_default_data)"
  by (simp add: api_words_delete snd_after_save load_after_save wf_deleted wf_load_data)

lemma api_words_delete_success:
  "fst (api_words st (Api_delete c e)) = Inr Success \<longleftrightarrow>
   encodable_dataset (deleted_dataset (fst (load_data st)) c e)"
  by (cases "encodable_dataset (deleted_dataset (fst (load_data st)) c e)")
     (simp_all add: api_words_delete after_save_ok after_save_fail)

text \<open>A DELETE whose write fails raises, leaves a file that \<open>json.load\<close> rejects, and the
  next \<open>load_data\<close> returns the seed.\<close>

lemma api_words_delete_failure:
  "\<not> encodable_dataset (deleted_dataset (fst (load_data st)) c e) \<Longrightarrow>
   api_words st (Api_delete c e) = (Inl UnicodeEncodeError, Some Unparseable)"
  by (simp add: api_words_delete after_save_fail)

lemma no_empty_after_delete:
  "no_empty_categories (fst (load_data st)) \<Longrightarrow>
   no_empty_categories (fst (load_data (snd (api_words st (Api_delete c e)))))"
  by (simp add: load_after_delete no_empty_deleted no_empty_get_default_data)

lemma load_delete_requests:
  "no_empty_categories (fst (load_data st)) \<Longrightarrow>
   no_empty_categories
     (fst (load_data (foldl (\<lambda>st' r. snd (api_words st' (Api_delete (fst r) (snd r)))) st reqs)))"
  by (induction reqs arbitrary: st) (simp_all add: no_empty_after_delete)

lemma deleted_sole_word:
  assumes "dict_get d c = Some [(e, r)]" and "e \<noteq> []"
  shows "deleted_dataset d (Some c) (Some e) = dict_del c (dict_set c [] d)"
  using assms
  by (simp add: deleted_dataset_def remove_word_def Let_def get_or_def dict_get_dict_set)

lemma delete_sole_word:
  assumes "dict_get (fst (load_data st)) c = Some [(e, r)]" and "e \<noteq> []"
    and "fst (api_words st (Api_delete (Some c) (Some e))) = Inr Success"
  shows "dict_get (fst (load_data (snd (api_words st (Api_delete (Some c) (Some e)))))) c = None"
proof -
  from assms(3) have "encodable_dataset (deleted_dataset (fst (load_data st)) (Some c) (Some e))"
    by (simp add: api_words_delete_success)
  then show ?thesis
    by (simp add: load_after_delete deleted_sole_word [OF assms(1,2)] dict_get_dict_del)
qed

lemma wf_statutes: "wf_dataset statutes"
  by (simp add: statutes_def wf_dataset_def keys_def ascii_def)

lemma load_statutes: "load_data (Some (Document statutes)) = (statutes, Some (Document statutes))"
  by (rule load_data_document) (rule wf_statutes)

text \<open>
  C7. If the dataset that the store gives has no empty category, then after any sequence
  of DELETE /api/words requests (word deletions and category deletions, with or without
  effect, answered or raising) the dataset that the store gives has no empty category.
  And when the word that a DELETE names is the only word of its category and the request
  is answered \<open>{success: true}\<close>, the dataset that the store gives afterwards has not that
  category. (A DELETE raises when the dataset it saves has a surrogate code point; the
  next \<open>load_data\<close> then returns the seed: \<open>api_words_delete_failure\<close>.)
\<close>

theorem delete_requests_no_empty:
  "(no_empty_categories (fst (load_data st)) \<longrightarrow>
      no_empty_categories (fst (load_data (delete_requests st reqs)))) \<and>
   (dict_get (fst (load_data st)) c = Some [(e, r)] \<and> e \<noteq> [] \<and>
    fst (api_words st (Api_delete (Some c) (Some e))) = Inr Success \<longrightarrow>
      dict_get (fst (load_data (snd (api_words st (Api_delete (Some c) (Some e)))))) c = None)"
proof (intro conjI impI)
  assume "no_empty_categories (fst (load_data st))"
  then show "no_empty_categories (fst (load_data (delete_requests st reqs)))"
    unfolding delete_requests_def by (rule load_delete_requests)
next
  assume "dict_get (fst (load_data st)) c = Some [(e, r)] \<and> e \<noteq> [] \<and>
    fst (api_words st (Api_delete (Some c) (Some e))) = Inr Success"
  then show "dict_get (fst (load_data (snd (api_words st (Api_delete (Some c) (Some e)))))) c
    = None"
    by (simp add: delete_sole_word)
qed

theorem delete_requests_no_empty_witness:
  "no_empty_categories (fst (load_data (Some (Document statutes)))) \<and>
   no_empty_categories
     (fst (load_data (delete_requests (Some (Document statutes))
        [(Some (ascii ''Court''), Some (ascii ''judge'')),
         (Some (ascii ''Court''), Some (ascii ''jury''))]))) \<and>
   dict_get (fst (load_data (Some (Document statutes)))) (ascii ''Law'') =
     Some [(ascii ''tort'', ascii ''y'')] \<and>
   ascii ''tort'' \<noteq> [] \<and>
   fst (api_words (Some (Document statutes))
          (Api_delete (Some (ascii ''Law'')) (Some (ascii ''tort'')))) = Inr Success \<and>
   dict_get
     (fst (load_data (snd (api_words (Some (Document statutes))
        (Api_delete (Some (ascii ''Law'')) (Some (ascii ''tort''))))))) (ascii ''Law'') = None"
proof -
  have ne: "no_empty_categories (fst (load_data (Some (Document statutes))))"
    by (simp add: load_statutes) (simp add: statutes_def no_empty_categories_def)
  have sole: "dict_get (fst (load_data (Some (Document statutes)))) (ascii ''Law'') =
     Some [(ascii ''tort'', ascii ''y'')]"
    by (simp add: load_statutes) (simp add: statutes_def ascii_def)
  have t: "ascii ''tort'' \<noteq> []"
    by (simp add: ascii_def)
  have "deleted_dataset statutes (Some (ascii ''Law'')) (Some (ascii ''tort'')) =
          [(ascii ''Court'', [(ascii ''judge'', ascii ''a''), (ascii ''jury'', ascii ''b'')])]"
    by (simp add: statutes_def deleted_dataset_def remove_word_def get_or_def ascii_def)
  then have "encodable_dataset
      (deleted_dataset statutes (Some (ascii ''Law'')) (Some (ascii ''tort'')))"
    by (simp add: encodable_dataset_def utf8_encodable_def surrogate_def ascii_def)
  then have ok: "fst (api_words (Some (Document statutes))
          (Api_delete (Some (ascii ''Law'')) (Some (ascii ''tort'')))) = Inr Success"
    by (simp add: api_words_delete_success load_statutes)
  from delete_requests_no_empty
    [of "Some (Document statutes)"
        "[(Some (ascii ''Court''), Some (ascii ''judge'')),
          (Some (ascii ''Court''), Some (ascii ''jury''))]"
        "ascii ''Law''" "ascii ''tort''" "ascii ''y''"]
    ne sole t ok
  show ?thesis by simp
qed

text \<open>The two requests of the example leave the category of one word alone.\<close>

lemma delete_both_words:
  "fst (load_data (delete_requests (Some (Document statutes))
        [(Some (ascii ''Court''), Some (ascii ''judge'')),
         (Some (ascii ''Court''), Some (ascii ''jury''))])) =
   [(ascii ''Law'', [(ascii ''tort'', ascii ''y'')])]"
proof -
  have one: "deleted_dataset statutes (Some (ascii ''Court'')) (Some (ascii ''judge'')) =
          [(ascii ''Law'', [(ascii ''tort'', ascii ''y'')]),
           (ascii ''Court'', [(ascii ''jury'', ascii ''b'')])]"
    by (simp add: statutes_def deleted_dataset_def remove_word_def get_or_def ascii_def)
  have two: "deleted_dataset
          [(ascii ''Law'', [(ascii ''tort'', ascii ''y'')]),
           (ascii ''Court'', [(ascii ''jury'', ascii ''b'')])]
          (Some (ascii ''Court'')) (Some (ascii ''jury'')) =
          [(ascii ''Law'', [(ascii ''tort'', ascii ''y'')])]"
    by (simp add: deleted_dataset_def remove_word_def get_or_def ascii_def)
  have enc: "encodable_dataset
          [(ascii ''Law'', [(ascii ''tort'', ascii ''y'')]),
           (ascii ''Court'', [(ascii ''jury'', ascii ''b'')])]"
       "encodable_dataset [(ascii ''Law'', [(ascii ''tort'', ascii ''y'')])]"
    by (simp_all add: encodable_dataset_def utf8_encodable_def surrogate_def ascii_def)
  have wf: "wf_dataset
          [(ascii ''Law'', [(ascii ''tort'', ascii ''y'')]),
           (ascii ''Court'', [(ascii ''jury'', ascii ''b'')])]"
    by (simp add: wf_dataset_def keys_def ascii_def)
  have s1: "snd (api_words (Some (Document statutes))
                   (Api_delete (Some (ascii ''Court'')) (Some (ascii ''judge'')))) =
            Some (Document [(ascii ''Law'', [(ascii ''tort'', ascii ''y'')]),
                            (ascii ''Court'', [(ascii ''jury'', ascii ''b'')])])"
    by (simp add: api_words_delete load_statutes one after_save_ok enc)
  show ?thesis
    by (simp add: delete_requests_def s1 load_after_delete load_data_document wf two enc)
qed


section \<open>Adding words\<close>

lemma api_words_post:
  "api_words st (Api_post e r c) =
     after_save (save_data (upsert_word (fst (load_data st)) c e r) (snd (load_data st)))
       Success"
proof (cases "load_data st")
  case (Pair data st')
  then show ?thesis by (simp add: api_words_def upsert_word_def Let_def)
qed

lemma wf_upsert_word:
  assumes wf: "wf_dataset d"
  shows "wf_dataset (upsert_word d c t r)"
proof -
  let ?d1 = "if dict_get d c = None then dict_set c [] d else d"
  have wf1: "wf_dataset ?d1"
    using wf by (simp add: wf_dict_set keys_def)
  have "distinct (keys (get_or (dict_get ?d1 c) []))"
  proof (cases "dict_get ?d1 c")
    case None
    then show ?thesis by (simp add: get_or_def keys_def)
  next
    case (Some ws)
    with wf_words [OF wf1 Some] show ?thesis by (simp add: get_or_def)
  qed
  then have "distinct (keys (dict_set t r (get_or (dict_get ?d1 c) [])))"
    by (rule distinct_dict_set)
  with wf1 show ?thesis
    unfolding upsert_word_def Let_def by (rule wf_dict_set)
qed

lemma lookup_upsert_word: "lookup (upsert_word d c t r) c t = Some r"
  by (simp add: lookup_def upsert_word_def Let_def dict_get_dict_set)

lemma lookup_upsert_word_other:
  "t' \<noteq> t \<Longrightarrow> lookup (upsert_word d c t r) c t' = lookup d c t'"
  by (simp add: lookup_def upsert_word_def Let_def dict_get_dict_set get_or_def
      split: option.splits)

lemma encodable_dict_set:
  assumes "encodable_dataset d" and "utf8_encodable c"
    and "list_all (\<lambda>w. utf8_encodable (fst w) \<and> utf8_encodable (snd w)) ws"
  shows "encodable_dataset (dict_set c ws d)"
proof -
  let ?ok = "\<lambda>p. utf8_encodable (fst p) \<and>
                  list_all (\<lambda>w. utf8_encodable (fst w) \<and> utf8_encodable (snd w)) (snd p)"
  have sub: "set (dict_set c ws d) \<subseteq> insert (c, ws) (set d)" by (rule set_dict_set)
  have "?ok p" if "p \<in> set (dict_set c ws d)" for p
  proof -
    from that sub have "p = (c, ws) \<or> p \<in> set d" by auto
    then show ?thesis
    proof
      assume "p = (c, ws)"
      with assms(2,3) show ?thesis by simp
    next
      assume "p \<in> set d"
      with assms(1) show ?thesis by (simp add: encodable_dataset_def list_all_iff)
    qed
  qed
  then show ?thesis by (simp add: encodable_dataset_def list_all_iff)
qed

lemma encodable_words:
  assumes "encodable_dataset d" and "dict_get d c = Some ws"
  shows "list_all (\<lambda>w. utf8_encodable (fst w) \<and> utf8_encodable (snd w)) ws"
proof -
  from assms(2) have "(c, ws) \<in> set d" by (rule dict_get_in_set)
  with assms(1) show ?thesis by (auto simp: encodable_dataset_def list_all_iff)
qed

lemma encodable_words_dict_set:
  assumes "list_all (\<lambda>w. utf8_encodable (fst w) \<and> utf8_encodable (snd w)) ws"
    and "utf8_encodable t" and "utf8_encodable r"
  shows "list_all (\<lambda>w. utf8_encodable (fst w) \<and> utf8_encodable (snd w)) (dict_set t r ws)"
proof -
  have "set (dict_set t r ws) \<subseteq> insert (t, r) (set ws)" by (rule set_dict_set)
  with assms show ?thesis by (auto simp: list_all_iff)
qed

lemma encodable_upsert_word:
  assumes enc: "encodable_dataset d"
    and c: "utf8_encodable c" and t: "utf8_encodable t" and r: "utf8_encodable r"
  shows "encodable_dataset (upsert_word d c t r)"
proof -
  let ?d1 = "if dict_get d c = None then dict_set c [] d else d"
  have enc1: "encodable_dataset ?d1"
    using enc c by (simp add: encodable_dict_set)
  have "list_all (\<lambda>w. utf8_encodable (fst w) \<and> utf8_encodable (snd w))
          (get_or (dict_get ?d1 c) [])"
  proof (cases "dict_get ?d1 c")
    case None
    then show ?thesis by (simp add: get_or_def)
  next
    case (Some ws)
    with encodable_words [OF enc1 Some] show ?thesis by (simp add: get_or_def)
  qed
  then have "list_all (\<lambda>w. utf8_encodable (fst w) \<and> utf8_encodable (snd w))
          (dict_set t r (get_or (dict_get ?d1 c) []))"
    using t r by (rule encodable_words_dict_set)
  with enc1 c show ?thesis
    unfolding upsert_word_def Let_def by (rule encodable_dict_set)
qed

lemma load_after_post:
  "fst (load_data (snd (api_words st (Api_post e r c)))) =
     (if encodable_dataset (upsert_word (fst (load_data st)) c e r)
      then upsert_word (fst (load_data st)) c e r else get_default_data)"
  by (simp add: api_words_post snd_after_save load_after_save wf_upsert_word wf_load_data)

lemma api_words_post_success:
  "fst (api_words st (Api_post e r c)) = Inr Success \<longleftrightarrow>
   encodable_dataset (upsert_word (fst (load_data st)) c e r)"
  by (cases "encodable_dataset (upsert_word (fst (load_data st)) c e r)")
     (simp_all add: api_words_post after_save_ok after_save_fail)

lemma api_words_get:
  "api_words st Api_get = (Inr (Json_data (fst (load_data st))), snd (load_data st))"
  by (cases "load_data st") (simp add: api_words_def)

lemma lookup_seed_tort: "lookup get_default_data civil_law (ascii ''tort'') = None"
  by (simp add: lookup_def get_default_data_def civil_law_def ascii_def)

lemma ascii_tort: "ascii ''tort'' \<noteq> ascii ''Tort''"
  by (simp add: ascii_def)

lemma encodable_examples:
  "utf8_encodable civil_law" "utf8_encodable delikt" "utf8_encodable (ascii ''Tort'')"
  "utf8_encodable [0x20]" "utf8_encodable []"
  by (simp_all add: utf8_encodable_def surrogate_def civil_law_def delikt_def ascii_def)

lemma add_word_get:
  "add_word lower st GET form = (Inr (Render_form (keys (fst (load_data st)))), snd (load_data st))"
  by (cases "load_data st") (simp add: add_word_def)

text \<open>The form handler: a term that is empty after \<open>strip\<close> and \<open>lower\<close>, or a translation
  that is empty after \<open>strip\<close>, is rejected and nothing is saved; so is a request without
  a category; otherwise the word is saved under the stripped and lower-cased term, in the
  new category if one is given.\<close>

lemma add_word_rejects_blank:
  assumes "lower (strip (get_or (form ''english'') [])) = [] \<or>
           strip (get_or (form ''russian'') []) = []"
  shows "add_word lower st POST form =
           (Inr (Render_error (keys (fst (load_data st))) Fields_required), snd (load_data st))"
proof (cases "load_data st")
  case (Pair data st')
  with assms show ?thesis
    by (auto simp: add_word_def Let_def)
qed

lemma add_word_rejects_no_category:
  assumes "lower (strip (get_or (form ''english'') [])) \<noteq> []"
    and "strip (get_or (form ''russian'') []) \<noteq> []"
    and "strip (get_or (form ''new_category'') []) = []"
    and "strip (get_or (form ''category'') []) = []"
  shows "add_word lower st POST form =
           (Inr (Render_error (keys (fst (load_data st))) Category_required), snd (load_data st))"
proof (cases "load_data st")
  case (Pair data st')
  with assms show ?thesis
    by (simp add: add_word_def Let_def)
qed

lemma add_word_persists:
  assumes "lower (strip (get_or (form ''english'') [])) \<noteq> []"
    and "strip (get_or (form ''russian'') []) \<noteq> []"
    and "final = (if strip (get_or (form ''new_category'') []) \<noteq> []
                  then strip (get_or (form ''new_category'') [])
                  else strip (get_or (form ''category'') []))"
    and "final \<noteq> []"
  shows "add_word lower st POST form =
           after_save
             (save_data
                (upsert_word (fst (load_data st)) final
                   (lower (strip (get_or (form ''english'') [])))
                   (strip (get_or (form ''russian'') [])))
                (snd (load_data st)))
             (Render_success
                (keys (upsert_word (fst (load_data st)) final
                         (lower (strip (get_or (form ''english'') [])))
                         (strip (get_or (form ''russian'') []))))
                (lower (strip (get_or (form ''english'') []))) final)"
proof (cases "load_data st")
  case (Pair data st')
  with assms show ?thesis
    by (simp add: add_word_def Let_def upsert_word_def)
qed

text \<open>
  C1. The form handler stores the term stripped and lower-cased (\<open>add_word_persists\<close>).
  POST /api/words stores the term as it arrives: after a POST of ``Tort'' to an absent
  store, GET /api/words shows the translation under the key ``Tort'' of the category, and
  nothing under ``tort''.
\<close>

theorem api_words_post_keeps_case:
  "let st = snd (api_words None (Api_post (ascii ''Tort'') delikt civil_law));
       d = fst (load_data st)
   in fst (api_words None (Api_post (ascii ''Tort'') delikt civil_law)) = Inr Success \<and>
      fst (api_words st Api_get) = Inr (Json_data d) \<and>
      lookup d civil_law (ascii ''Tort'') = Some delikt \<and>
      lookup d civil_law (ascii ''tort'') = None"
proof -
  have enc: "encodable_dataset (upsert_word get_default_data civil_law (ascii ''Tort'') delikt)"
    by (simp add: encodable_upsert_word encodable_get_default_data encodable_examples)
  show ?thesis
    by (simp add: Let_def api_words_get api_words_post_success load_after_post enc
        lookup_upsert_word lookup_upsert_word_other ascii_tort load_data_absent
        lookup_seed_tort)
qed

text \<open>
  C2. The form handler rejects a blank term or translation and an unresolved category
  and then leaves the store as \<open>load_data\<close> left it (\<open>add_word_rejects_blank\<close>,
  \<open>add_word_rejects_no_category\<close>); it saves otherwise, the new category taking
  precedence (\<open>add_word_persists\<close>). POST /api/words validates nothing: a term that is a
  single space with an empty translation is answered \<open>{success: true}\<close> and saved.
\<close>

theorem api_words_post_accepts_blank:
  "let st0 = snd (load_data None);
       st = snd (api_words st0 (Api_post [0x20] [] civil_law))
   in strip [0x20] = [] \<and>
      fst (api_words st0 (Api_post [0x20] [] civil_law)) = Inr Success \<and>
      lookup (fst (load_data st0)) civil_law [0x20] = None \<and>
      lookup (fst (load_data st)) civil_law [0x20] = Some []"
proof -
  have seed: "fst (load_data (snd (load_data None))) = get_default_data"
    by (simp add: load_data_absent load_data_document wf_get_default_data)
  have none: "lookup get_default_data civil_law [0x20] = None"
    by (simp add: lookup_def get_default_data_def civil_law_def ascii_def)
  have blank: "strip [0x20] = []"
    by (simp add: strip_def isspace_def)
  have enc: "encodable_dataset (upsert_word get_default_data civil_law [0x20] [])"
    by (simp add: encodable_upsert_word encodable_get_default_data encodable_examples)
  show ?thesis
    by (simp add: Let_def blank api_words_post_success load_after_post enc seed
        lookup_upsert_word none)
qed

end
